theory Spec2Isabelle
  imports Main
begin

section \<open>JSON values and the Python built-ins the transformer relies on\<close>

text \<open>
  A document read by \<^verbatim>\<open>json.load\<close> is a tree of Python values: \<^verbatim>\<open>None\<close>, \<^verbatim>\<open>bool\<close>,
  \<^verbatim>\<open>int\<close> (unbounded), \<^verbatim>\<open>float\<close>, \<^verbatim>\<open>str\<close>, \<^verbatim>\<open>list\<close> and \<^verbatim>\<open>dict\<close>. A dict keeps its keys in
  insertion order and has no duplicate key, so it is an association list read in order. A
  float is carried by the text \<^verbatim>\<open>str\<close> returns for it (\<^verbatim>\<open>0.5\<close>, \<^verbatim>\<open>1e+16\<close>); the transformer
  never computes with floats. Text is a list of code points below 256. An integer that
  \<^verbatim>\<open>json.load\<close> or \<^verbatim>\<open>int\<close> has read has at most 4300 digits, so that \<^verbatim>\<open>str\<close> of it does not fail.
\<close>

datatype json =
    JNull
  | JBool bool
  | JInt int
  | JFloat string
  | JStr string
  | JList "json list"
  | JDict "(string \<times> json) list"

text \<open>The exceptions that can leave \<^verbatim>\<open>collect_main_category_items\<close>.\<close>

datatype exn = AttributeError | TypeError | IndexError

subsection \<open>\<^verbatim>\<open>str.lower\<close>, \<^verbatim>\<open>str.isdigit\<close>, \<^verbatim>\<open>str.endswith\<close>, \<^verbatim>\<open>in\<close>\<close>

definition lower_char :: "char \<Rightarrow> char" where
  "lower_char c =
     (let n = (of_char c :: nat)
      in if (65 \<le> n \<and> n \<le> 90) \<or> (192 \<le> n \<and> n \<le> 222 \<and> n \<noteq> 215)
         then char_of (n + 32) else c)"

definition lower :: "string \<Rightarrow> string" where
  "lower s = map lower_char s"

definition isdigit_char :: "char \<Rightarrow> bool" where
  "isdigit_char c =
     (let n = (of_char c :: nat)
      in (48 \<le> n \<and> n \<le> 57) \<or> n = 178 \<or> n = 179 \<or> n = 185)"

definition isdigit :: "string \<Rightarrow> bool" where
  "isdigit s = (s \<noteq> [] \<and> list_all isdigit_char s)"

definition startswith :: "string \<Rightarrow> string \<Rightarrow> bool" where
  "startswith s p = (take (length p) s = p)"

definition endswith :: "string \<Rightarrow> string \<Rightarrow> bool" where
  "endswith s e = (length e \<le> length s \<and> drop (length s - length e) s = e)"

text \<open>\<^verbatim>\<open>p in s\<close> for two strings: \<^verbatim>\<open>p\<close> occurs in \<^verbatim>\<open>s\<close> as a contiguous slice.\<close>

fun str_contains :: "string \<Rightarrow> string \<Rightarrow> bool" where
  "str_contains [] p = (p = [])"
| "str_contains (c # s) p = (startswith (c # s) p \<or> str_contains s p)"

subsection \<open>\<^verbatim>\<open>str\<close> of a value\<close>

definition digit_char :: "nat \<Rightarrow> char" where
  "digit_char d = char_of (48 + d)"

fun str_nat :: "nat \<Rightarrow> string" where
  "str_nat n = (if n < 10 then [digit_char n] else str_nat (n div 10) @ [digit_char (n mod 10)])"

declare str_nat.simps [simp del]

definition str_int :: "int \<Rightarrow> string" where
  "str_int i = (if i < 0 then CHR ''-'' # str_nat (nat (- i)) else str_nat (nat i))"

text \<open>
  \<^verbatim>\<open>repr\<close> of a string: single quotes unless the text holds a single quote and no double
  quote; the quote and the backslash are escaped, tab, newline and carriage return are
  written \<^verbatim>\<open>\t\<close>, \<^verbatim>\<open>\n\<close>, \<^verbatim>\<open>\r\<close>, every other non-printable code point as \<^verbatim>\<open>\xNN\<close>.
\<close>

definition hex_digit :: "nat \<Rightarrow> char" where
  "hex_digit d = (if d < 10 then char_of (48 + d) else char_of (87 + d))"

definition printable :: "char \<Rightarrow> bool" where
  "printable c =
     (let n = (of_char c :: nat) in (32 \<le> n \<and> n < 127) \<or> (160 < n \<and> n \<noteq> 173))"

definition repr_char :: "char \<Rightarrow> char \<Rightarrow> string" where
  "repr_char q c =
     (if c = q \<or> c = CHR 0x5C then [CHR 0x5C, c]
      else if c = CHR 0x09 then [CHR 0x5C, CHR ''t'']
      else if c = CHR 0x0A then [CHR 0x5C, CHR ''n'']
      else if c = CHR 0x0D then [CHR 0x5C, CHR ''r'']
      else if printable c then [c]
      else [CHR 0x5C, CHR ''x'', hex_digit (of_char c div 16), hex_digit (of_char c mod 16)])"

definition repr_str :: "string \<Rightarrow> string" where
  "repr_str s =
     (let q = (if CHR 0x27 \<in> set s \<and> CHR 0x22 \<notin> set s then CHR 0x22 else CHR 0x27)
      in [q] @ concat (map (repr_char q) s) @ [q])"

fun join :: "string \<Rightarrow> string list \<Rightarrow> string" where
  "join sep [] = []"
| "join sep [x] = x"
| "join sep (x # y # ys) = x @ sep @ join sep (y # ys)"

fun repr :: "json \<Rightarrow> string" where
  "repr JNull = ''None''"
| "repr (JBool b) = (if b then ''True'' else ''False'')"
| "repr (JInt i) = str_int i"
| "repr (JFloat f) = f"
| "repr (JStr s) = repr_str s"
| "repr (JList xs) = ''['' @ join '', '' (map repr xs) @ '']''"
| "repr (JDict kvs) =
     ''{'' @ join '', '' (map (\<lambda>(k, v). repr_str k @ '': '' @ repr v) kvs) @ ''}''"

definition py_str :: "json \<Rightarrow> string" where
  "py_str v = (case v of JStr s \<Rightarrow> s | _ \<Rightarrow> repr v)"

subsection \<open>Truth value, \<^verbatim>\<open>dict.get\<close>, iteration\<close>

definition truthy :: "json \<Rightarrow> bool" where
  "truthy v =
     (case v of
        JNull \<Rightarrow> False
      | JBool b \<Rightarrow> b
      | JInt i \<Rightarrow> i \<noteq> 0
      | JFloat f \<Rightarrow> f \<noteq> ''0.0'' \<and> f \<noteq> ''-0.0''
      | JStr s \<Rightarrow> s \<noteq> []
      | JList xs \<Rightarrow> xs \<noteq> []
      | JDict kvs \<Rightarrow> kvs \<noteq> [])"

text \<open>\<^verbatim>\<open>x.get(key, default)\<close>: \<^verbatim>\<open>AttributeError\<close> unless \<^verbatim>\<open>x\<close> is a dict.\<close>

definition py_get :: "json \<Rightarrow> string \<Rightarrow> json \<Rightarrow> exn + json" where
  "py_get x key dflt =
     (case x of
        JDict kvs \<Rightarrow> (case map_of kvs key of Some v \<Rightarrow> Inr v | None \<Rightarrow> Inr dflt)
      | _ \<Rightarrow> Inl AttributeError)"

text \<open>
  \<^verbatim>\<open>for item in x\<close>: a list yields its elements, a dict its keys, a string its characters;
  anything else is not iterable.
\<close>

definition py_iter :: "json \<Rightarrow> exn + json list" where
  "py_iter x =
     (case x of
        JList xs \<Rightarrow> Inr xs
      | JDict kvs \<Rightarrow> Inr (map (\<lambda>(k, v). JStr k) kvs)
      | JStr s \<Rightarrow> Inr (map (\<lambda>c. JStr [c]) s)
      | _ \<Rightarrow> Inl TypeError)"

section \<open>The regrouping pass: \<^verbatim>\<open>collect_main_category_items\<close>\<close>

text \<open>
  \<^verbatim>\<open>all(item.get('isMainCategory', False) for item in items)\<close> stops at the first item whose
  flag is false; an item before that point that is not a dict raises.
\<close>

fun all_main_category :: "json list \<Rightarrow> exn + bool" where
  "all_main_category [] = Inr True"
| "all_main_category (item # items) =
     (case py_get item ''isMainCategory'' (JBool False) of
        Inl e \<Rightarrow> Inl e
      | Inr flag \<Rightarrow> if truthy flag then all_main_category items else Inr False)"

text \<open>One \<^verbatim>\<open>main_category_items.append({'id': ..., 'image': ...})\<close>.\<close>

definition main_category_record :: "json \<Rightarrow> exn + json" where
  "main_category_record item =
     (case py_get item ''category'' JNull of
        Inl e \<Rightarrow> Inl e
      | Inr cat \<Rightarrow>
          (case py_get item ''image'' JNull of
             Inl e \<Rightarrow> Inl e
           | Inr img \<Rightarrow> Inr (JDict [(''id'', JStr (py_str cat)), (''image'', img)])))"

fun append_records :: "json list \<Rightarrow> json list \<Rightarrow> exn + json list" where
  "append_records acc [] = Inr acc"
| "append_records acc (item # items) =
     (case main_category_record item of
        Inl e \<Rightarrow> Inl e
      | Inr r \<Rightarrow> append_records (acc @ [r]) items)"

text \<open>
  The first loop, over \<^verbatim>\<open>enumerate(components)\<close>, with its two accumulators
  \<^verbatim>\<open>main_category_items\<close> and \<^verbatim>\<open>components_to_remove\<close>.
\<close>

fun scan_components ::
  "json list \<Rightarrow> nat \<Rightarrow> json list \<Rightarrow> nat list \<Rightarrow> exn + (json list \<times> nat list)" where
  "scan_components [] i main_category_items components_to_remove =
     Inr (main_category_items, components_to_remove)"
| "scan_components (component # rest) i main_category_items components_to_remove =
     (case py_get component ''layout'' JNull of
        Inl e \<Rightarrow> Inl e
      | Inr layout \<Rightarrow>
          if layout = JStr ''banner'' then
            (case py_get component ''config'' (JDict []) of
               Inl e \<Rightarrow> Inl e
             | Inr config \<Rightarrow>
                 (case py_get config ''items'' (JList []) of
                    Inl e \<Rightarrow> Inl e
                  | Inr items_value \<Rightarrow>
                      (case py_iter items_value of
                         Inl e \<Rightarrow> Inl e
                       | Inr items \<Rightarrow>
                           (case all_main_category items of
                              Inl e \<Rightarrow> Inl e
                            | Inr False \<Rightarrow>
                                scan_components rest (Suc i) main_category_items
                                  components_to_remove
                            | Inr True \<Rightarrow>
                                (case append_records main_category_items items of
                                   Inl e \<Rightarrow> Inl e
                                 | Inr main_category_items' \<Rightarrow>
                                     scan_components rest (Suc i) main_category_items'
                                       (components_to_remove @ [i]))))))
          else scan_components rest (Suc i) main_category_items components_to_remove)"

text \<open>\<^verbatim>\<open>components.pop(index)\<close>; \<^verbatim>\<open>IndexError\<close> out of range.\<close>

definition pop :: "nat \<Rightarrow> json list \<Rightarrow> exn + json list" where
  "pop index components =
     (if index < length components
      then Inr (take index components @ drop (Suc index) components)
      else Inl IndexError)"

fun pop_all :: "nat list \<Rightarrow> json list \<Rightarrow> exn + json list" where
  "pop_all [] components = Inr components"
| "pop_all (index # indices) components =
     (case pop index components of
        Inl e \<Rightarrow> Inl e
      | Inr components' \<Rightarrow> pop_all indices components')"

definition main_category_list :: "json list \<Rightarrow> json" where
  "main_category_list main_category_items =
     JDict [(''layout'', JStr ''mainCategoryList''),
            (''config'', JDict [(''categories'', JList main_category_items)])]"

definition collect_main_category_items :: "json list \<Rightarrow> exn + json list" where
  "collect_main_category_items components =
     (case scan_components components 0 [] [] of
        Inl e \<Rightarrow> Inl e
      | Inr (main_category_items, components_to_remove) \<Rightarrow>
          (case pop_all (rev components_to_remove) components of
             Inl e \<Rightarrow> Inl e
           | Inr components' \<Rightarrow>
               if main_category_items \<noteq> []
               then Inr (main_category_list main_category_items # components')
               else Inr components'))"

section \<open>Image classification\<close>

definition IMAGE_FIELDS :: "string list" where
  "IMAGE_FIELDS =
     [''image'', ''small_img'', ''slider_images'', ''homeTabBarBackgroundImage'',
      ''sectionTabBackgroundImage'', ''sectionBackgrondImg'', ''influencer_pfp'',
      ''backgroundImage'', ''banner_image'', ''profile_image'', ''thumbnail'',
      ''cover_image'', ''logo'', ''icon'']"

definition image_extensions :: "string list" where
  "image_extensions = [''.jpg'', ''.jpeg'', ''.png'', ''.gif'', ''.bmp'', ''.webp'', ''.svg'']"

definition image_patterns :: "string list" where
  "image_patterns =
     [''cdn.digitaloceanspaces.com'', ''amazonaws.com'', ''cloudinary.com'', ''imgur.com'',
      ''unsplash.com'', ''/images/'', ''/img/'', ''/media/'', ''/assets/'']"

text \<open>\<^verbatim>\<open>key.lower() in [field.lower() for field in self.IMAGE_FIELDS]\<close>\<close>

definition is_image_field :: "string \<Rightarrow> bool" where
  "is_image_field key = (lower key \<in> set (map lower IMAGE_FIELDS))"

definition is_image_url :: "json \<Rightarrow> bool" where
  "is_image_url value =
     (case value of
        JStr s \<Rightarrow>
          list_ex (endswith (lower s)) image_extensions
          \<or> list_ex (str_contains (lower s)) image_patterns
      | _ \<Rightarrow> False)"

section \<open>The transformer: configuration, caches, external services\<close>

text \<open>
  \<^verbatim>\<open>fetch_dimensions\<close>, \<^verbatim>\<open>cache_dimensions\<close> and \<^verbatim>\<open>convert_category_ids\<close> are set by
  \<^verbatim>\<open>__init__\<close> and never assigned again: they form the configuration. The two caches are the
  mutable part of the object. The state also records, in order, every request sent to an
  external service; the code keeps no such list, it is there to count requests.
\<close>

record config =
  fetch_dimensions :: bool
  cache_dimensions :: bool
  convert_category_ids :: bool

datatype request = ImageRequest string | WordpressRequest string | OdooRequest string

record state =
  dimension_cache :: "string \<rightharpoonup> (int option \<times> int option)"
  category_cache :: "string \<rightharpoonup> string"
  sent :: "request list"

definition initial_state :: state where
  "initial_state = \<lparr>dimension_cache = Map.empty, category_cache = Map.empty, sent = []\<rparr>"

text \<open>
  What the request of \<^verbatim>\<open>get_image_dimensions\<close> can meet: \<^verbatim>\<open>requests.get\<close> raises, or a
  response arrives with a status code and a body; the second field is what \<^verbatim>\<open>Image.open\<close>
  makes of the body, \<^verbatim>\<open>None\<close> when it raises and \<^verbatim>\<open>img.size\<close> otherwise.
\<close>

datatype fetch_result = ConnectionFailed | Fetched nat "(int \<times> int) option"

text \<open>
  What a category lookup request can do: \<^verbatim>\<open>requests.get\<close> raises, or a response arrives
  with a status code and a body; the body is \<^verbatim>\<open>None\<close> when \<^verbatim>\<open>response.json()\<close> raises.
\<close>

datatype http_result = RequestFailed | Response nat "json option"

text \<open>
  The services answer as they please: each answer may depend on the request and on all the
  requests sent before it.
\<close>

record services =
  image_service :: "request list \<Rightarrow> string \<Rightarrow> fetch_result"
  wordpress_service :: "request list \<Rightarrow> string \<Rightarrow> http_result"
  odoo_service :: "request list \<Rightarrow> string \<Rightarrow> http_result"

definition send :: "request \<Rightarrow> state \<Rightarrow> state" where
  "send r s = s\<lparr>sent := sent s @ [r]\<rparr>"

section \<open>Image dimensions and the image model\<close>

text \<open>
  What the \<^verbatim>\<open>try\<close> block computes, \<^verbatim>\<open>None\<close> when it raises:
  \<^verbatim>\<open>response.raise_for_status()\<close> raises for a status from 400 to 599 and for no other.
\<close>

definition fetched_size :: "fetch_result \<Rightarrow> (int \<times> int) option" where
  "fetched_size r =
     (case r of
        ConnectionFailed \<Rightarrow> None
      | Fetched status decoded \<Rightarrow> if 400 \<le> status \<and> status < 600 then None else decoded)"

definition get_image_dimensions ::
  "config \<Rightarrow> services \<Rightarrow> string \<Rightarrow> state \<Rightarrow> (int option \<times> int option) \<times> state" where
  "get_image_dimensions cfg srv image_url s =
     (if \<not> fetch_dimensions cfg then ((None, None), s)
      else if cache_dimensions cfg \<and> dimension_cache s image_url \<noteq> None
      then (the (dimension_cache s image_url), s)
      else
        (let s1 = send (ImageRequest image_url) s
         in case fetched_size (image_service srv (sent s) image_url) of
              Some (width, height) \<Rightarrow>
                ((Some width, Some height),
                 if cache_dimensions cfg
                 then s1\<lparr>dimension_cache :=
                            (dimension_cache s1)(image_url \<mapsto> (Some width, Some height))\<rparr>
                 else s1)
            | None \<Rightarrow>
                ((None, None),
                 if cache_dimensions cfg
                 then s1\<lparr>dimension_cache := (dimension_cache s1)(image_url \<mapsto> (None, None))\<rparr>
                 else s1)))"

text \<open>\<^verbatim>\<open>a or b\<close> on optional integers: \<^verbatim>\<open>None\<close> and \<^verbatim>\<open>0\<close> are false.\<close>

definition py_or :: "int option \<Rightarrow> int option \<Rightarrow> int option" where
  "py_or a b = (case a of None \<Rightarrow> b | Some n \<Rightarrow> if n = 0 then b else a)"

definition create_image_model ::
  "config \<Rightarrow> services \<Rightarrow> string \<Rightarrow> int option \<Rightarrow> int option \<Rightarrow> state \<Rightarrow> json \<times> state" where
  "create_image_model cfg srv image_url width height s =
     (let (width', height', s') =
            (if width = None \<or> height = None
             then (case get_image_dimensions cfg srv image_url s of
                     ((fetched_width, fetched_height), s1) \<Rightarrow>
                       (py_or width fetched_width, py_or height fetched_height, s1))
             else (width, height, s))
      in (JDict ([(''imageUrl'', JStr image_url)]
                 @ (case width' of None \<Rightarrow> [] | Some w \<Rightarrow> [(''width'', JStr (str_int w))])
                 @ (case height' of None \<Rightarrow> [] | Some h \<Rightarrow> [(''height'', JStr (str_int h))])),
          s'))"

section \<open>Category identifiers\<close>

text \<open>
  The value \<^verbatim>\<open>get_wordpress_category_name\<close> returns for an answer of the name service;
  \<^verbatim>\<open>JNull\<close> is \<^verbatim>\<open>None\<close>. Only a non-empty list whose first element is a dict gets past
  \<^verbatim>\<open>data[0].get("name", "")\<close>; every other body is falsy or raises inside the \<^verbatim>\<open>try\<close>.
\<close>

definition wordpress_name :: "http_result \<Rightarrow> json" where
  "wordpress_name r =
     (case r of
        RequestFailed \<Rightarrow> JNull
      | Response status body \<Rightarrow>
          if status = 200 then
            (case body of
               Some (JList (JDict kvs # rest)) \<Rightarrow>
                 (case map_of kvs ''name'' of Some name \<Rightarrow> name | None \<Rightarrow> JStr '''')
             | _ \<Rightarrow> JNull)
          else JNull)"

definition get_wordpress_category_name :: "services \<Rightarrow> string \<Rightarrow> state \<Rightarrow> json \<times> state" where
  "get_wordpress_category_name srv category_id s =
     (wordpress_name (wordpress_service srv (sent s) category_id),
      send (WordpressRequest category_id) s)"

text \<open>
  The value \<^verbatim>\<open>get_odoo_category_id\<close> returns for an answer of the catalog service. The body
  must be a dict (else \<^verbatim>\<open>data.get\<close> raises) with \<^verbatim>\<open>status\<close> equal to \<^verbatim>\<open>"success"\<close> and a
  \<^verbatim>\<open>data\<close> list whose first element is a dict with a truthy \<^verbatim>\<open>mattaId\<close>.
\<close>

definition odoo_id :: "http_result \<Rightarrow> string option" where
  "odoo_id r =
     (case r of
        RequestFailed \<Rightarrow> None
      | Response status body \<Rightarrow>
          if status = 200 then
            (case body of
               Some (JDict kvs) \<Rightarrow>
                 if map_of kvs ''status'' = Some (JStr ''success'') then
                   (case map_of kvs ''data'' of
                      Some (JList (JDict entry # rest)) \<Rightarrow>
                        (case map_of entry ''mattaId'' of
                           Some matta_id \<Rightarrow>
                             if truthy matta_id then Some (py_str matta_id) else None
                         | None \<Rightarrow> None)
                    | _ \<Rightarrow> None)
                 else None
             | _ \<Rightarrow> None)
          else None)"

text \<open>\<^verbatim>\<open>urllib.parse.quote\<close> raises \<^verbatim>\<open>TypeError\<close>, inside the \<^verbatim>\<open>try\<close>, on a name that is not a string.\<close>

definition get_odoo_category_id :: "services \<Rightarrow> json \<Rightarrow> state \<Rightarrow> string option \<times> state" where
  "get_odoo_category_id srv category_name s =
     (case category_name of
        JStr name \<Rightarrow> (odoo_id (odoo_service srv (sent s) name), send (OdooRequest name) s)
      | _ \<Rightarrow> (None, s))"

definition memoize :: "string \<Rightarrow> string \<Rightarrow> state \<Rightarrow> state" where
  "memoize category_id v s = s\<lparr>category_cache := (category_cache s)(category_id \<mapsto> v)\<rparr>"

definition convert_category_id :: "config \<Rightarrow> services \<Rightarrow> string \<Rightarrow> state \<Rightarrow> string \<times> state" where
  "convert_category_id cfg srv category_id s =
     (if \<not> convert_category_ids cfg then (category_id, s)
      else
        (case category_cache s category_id of
           Some cached \<Rightarrow> (cached, s)
         | None \<Rightarrow>
             (case get_wordpress_category_name srv category_id s of
                (category_name, s1) \<Rightarrow>
                  if category_name = JNull then (category_id, memoize category_id category_id s1)
                  else
                    (case get_odoo_category_id srv category_name s1 of
                       (None, s2) \<Rightarrow> (''1139'', memoize category_id ''1139'' s2)
                     | (Some odoo, s2) \<Rightarrow> (odoo, memoize category_id odoo s2)))))"

subsection \<open>\<^verbatim>\<open>int\<close> of a string\<close>

text \<open>
  Surrounding white space is dropped (tab to carriage return, space, and the code points 133
  and 160), one sign is allowed, and the digits may be separated by single underscores.
  More than 4300 digits are refused, the default limit of the interpreter since version 3.11;
  leading zeros count, underscores do not.
\<close>

definition is_space :: "char \<Rightarrow> bool" where
  "is_space c =
     (let n = (of_char c :: nat)
      in (9 \<le> n \<and> n \<le> 13) \<or> n = 32 \<or> n = 133 \<or> n = 160)"

definition is_decimal :: "char \<Rightarrow> bool" where
  "is_decimal c = (let n = (of_char c :: nat) in 48 \<le> n \<and> n \<le> 57)"

definition strip :: "string \<Rightarrow> string" where
  "strip s = rev (dropWhile is_space (rev (dropWhile is_space s)))"

fun grouped_digits :: "string \<Rightarrow> bool" where
  "grouped_digits [] = False"
| "grouped_digits [c] = is_decimal c"
| "grouped_digits (c # d # r) =
     (is_decimal c \<and> (if d = CHR ''_'' then grouped_digits r else grouped_digits (d # r)))"

definition digits_value :: "string \<Rightarrow> int" where
  "digits_value ds = foldl (\<lambda>a c. 10 * a + (int (of_char c) - 48)) 0 ds"

definition parse_digits :: "string \<Rightarrow> int option" where
  "parse_digits body =
     (let ds = filter (\<lambda>c. c \<noteq> CHR ''_'') body
      in if grouped_digits body \<and> length ds \<le> 4300 then Some (digits_value ds) else None)"

definition py_int :: "string \<Rightarrow> int option" where
  "py_int s =
     (case strip s of
        [] \<Rightarrow> None
      | c # r \<Rightarrow>
          if c = CHR ''-'' then map_option uminus (parse_digits r)
          else if c = CHR ''+'' then parse_digits r
          else parse_digits (c # r))"

section \<open>The recursive rewrite\<close>

definition is_category_key :: "string \<Rightarrow> bool" where
  "is_category_key key = (lower key \<in> set [''category'', ''categoryid''])"

text \<open>\<^verbatim>\<open>isinstance(value, (str, int))\<close> and \<^verbatim>\<open>isinstance(value, int)\<close>; \<^verbatim>\<open>bool\<close> is a subclass of \<^verbatim>\<open>int\<close>.\<close>

definition is_str_or_int :: "json \<Rightarrow> bool" where
  "is_str_or_int value =
     (case value of JStr s \<Rightarrow> True | JInt i \<Rightarrow> True | JBool b \<Rightarrow> True | _ \<Rightarrow> False)"

definition is_int :: "json \<Rightarrow> bool" where
  "is_int value = (case value of JInt i \<Rightarrow> True | JBool b \<Rightarrow> True | _ \<Rightarrow> False)"

text \<open>
  \<^verbatim>\<open>transform_data\<close> and \<^verbatim>\<open>transform_value\<close> call each other. Their three loops are functions
  of their own: \<^verbatim>\<open>transform_data_items\<close> is the loop over \<^verbatim>\<open>data.items()\<close> that fills
  \<^verbatim>\<open>transformed\<close>, \<^verbatim>\<open>transform_data_list\<close> the comprehension
  \<^verbatim>\<open>[self.transform_data(item) for item in ...]\<close>, \<^verbatim>\<open>transform_value_list\<close> the loop that fills
  \<^verbatim>\<open>transformed_list\<close>. An exception ends the walk; the caches keep what was stored.
\<close>

function transform_data :: "config \<Rightarrow> services \<Rightarrow> json \<Rightarrow> state \<Rightarrow> (exn + json) \<times> state"
  and transform_data_items ::
    "config \<Rightarrow> services \<Rightarrow> (string \<times> json) list \<Rightarrow> (string \<times> json) list \<Rightarrow> state
     \<Rightarrow> (exn + (string \<times> json) list) \<times> state"
  and transform_data_list ::
    "config \<Rightarrow> services \<Rightarrow> json list \<Rightarrow> state \<Rightarrow> (exn + json list) \<times> state"
  and transform_value ::
    "config \<Rightarrow> services \<Rightarrow> string \<Rightarrow> json \<Rightarrow> state \<Rightarrow> (exn + json) \<times> state"
  and transform_value_list ::
    "config \<Rightarrow> services \<Rightarrow> string \<Rightarrow> json list \<Rightarrow> json list \<Rightarrow> state
     \<Rightarrow> (exn + json list) \<times> state"
where
  "transform_data cfg srv (JDict kvs) s =
     (case transform_data_items cfg srv kvs [] s of
        (Inl e, s') \<Rightarrow> (Inl e, s')
      | (Inr transformed, s') \<Rightarrow> (Inr (JDict transformed), s'))"
| "transform_data cfg srv (JList xs) s =
     (case transform_data_list cfg srv xs s of
        (Inl e, s') \<Rightarrow> (Inl e, s')
      | (Inr ys, s') \<Rightarrow> (Inr (JList ys), s'))"
| "transform_data cfg srv JNull s = (Inr JNull, s)"
| "transform_data cfg srv (JBool b) s = (Inr (JBool b), s)"
| "transform_data cfg srv (JInt i) s = (Inr (JInt i), s)"
| "transform_data cfg srv (JFloat f) s = (Inr (JFloat f), s)"
| "transform_data cfg srv (JStr t) s = (Inr (JStr t), s)"
| "transform_data_items cfg srv [] transformed s = (Inr transformed, s)"
| "transform_data_items cfg srv ((key, value) # rest) transformed s =
     (case (case value of
              JList xs \<Rightarrow>
                if key = ''components'' then
                  (case transform_data_list cfg srv xs s of
                     (Inl e, s') \<Rightarrow> (Inl e, s')
                   | (Inr ys, s') \<Rightarrow>
                       (case collect_main_category_items ys of
                          Inl e \<Rightarrow> (Inl e, s')
                        | Inr components \<Rightarrow> (Inr (JList components), s')))
                else transform_value cfg srv key value s
            | _ \<Rightarrow> transform_value cfg srv key value s) of
        (Inl e, s') \<Rightarrow> (Inl e, s')
      | (Inr v, s') \<Rightarrow> transform_data_items cfg srv rest (transformed @ [(key, v)]) s')"
| "transform_data_list cfg srv [] s = (Inr [], s)"
| "transform_data_list cfg srv (item # items) s =
     (case transform_data cfg srv item s of
        (Inl e, s') \<Rightarrow> (Inl e, s')
      | (Inr y, s') \<Rightarrow>
          (case transform_data_list cfg srv items s' of
             (Inl e, s'') \<Rightarrow> (Inl e, s'')
           | (Inr ys, s'') \<Rightarrow> (Inr (y # ys), s'')))"
| "transform_value cfg srv key value s =
     (if is_category_key key \<and> is_str_or_int value \<and> isdigit (py_str value) then
        (case convert_category_id cfg srv (py_str value) s of
           (converted_id, s') \<Rightarrow>
             if is_int value then
               (case py_int converted_id of
                  Some n \<Rightarrow> (Inr (JInt n), s')
                | None \<Rightarrow> (Inr (JStr converted_id), s'))
             else (Inr (JStr converted_id), s'))
      else
        (case value of
           JStr t \<Rightarrow>
             if is_image_field key \<or> is_image_url value then
               (case create_image_model cfg srv t None None s of (model, s') \<Rightarrow> (Inr model, s'))
             else (Inr value, s)
         | JList xs \<Rightarrow>
             (case transform_value_list cfg srv key xs [] s of
                (Inl e, s') \<Rightarrow> (Inl e, s')
              | (Inr transformed_list, s') \<Rightarrow> (Inr (JList transformed_list), s'))
         | JDict kvs \<Rightarrow> transform_data cfg srv value s
         | _ \<Rightarrow> (Inr value, s)))"
| "transform_value_list cfg srv key [] transformed_list s = (Inr transformed_list, s)"
| "transform_value_list cfg srv key (item # items) transformed_list s =
     (case (case item of
              JStr t \<Rightarrow>
                if is_image_field key \<or> is_image_url item then
                  (case create_image_model cfg srv t None None s of
                     (model, s') \<Rightarrow> (Inr model, s'))
                else transform_data cfg srv item s
            | _ \<Rightarrow> transform_data cfg srv item s) of
        (Inl e, s') \<Rightarrow> (Inl e, s')
      | (Inr y, s') \<Rightarrow> transform_value_list cfg srv key items (transformed_list @ [y]) s')"
  by pat_completeness auto

text \<open>
  Every call is on a smaller value, except that \<^verbatim>\<open>transform_value\<close> hands a dict as it is
  to \<^verbatim>\<open>transform_data\<close>.
\<close>

termination
  apply (relation "measure (\<lambda>x. case x of
            Inl (Inl (cfg, srv, d, s)) \<Rightarrow> 2 * size d
          | Inl (Inr (cfg, srv, kvs, acc, s)) \<Rightarrow> 2 * size_list (size_prod (\<lambda>k. 0) size) kvs
          | Inr (Inl (cfg, srv, xs, s)) \<Rightarrow> 2 * size_list size xs
          | Inr (Inr (Inl (cfg, srv, k, v, s))) \<Rightarrow> 2 * size v + 1
          | Inr (Inr (Inr (cfg, srv, k, xs, acc, s))) \<Rightarrow> 2 * size_list size xs)")
  apply simp_all
  done

declare transform_value.simps [simp del]

section \<open>What the regrouping pass computes\<close>

text \<open>
  The notions used to state what \<^verbatim>\<open>collect_main_category_items\<close> returns: the record made
  from an item, the items of a banner, whether the first loop puts a component on
  \<^verbatim>\<open>components_to_remove\<close>, and the first exception the loop meets.
\<close>

definition field :: "json \<Rightarrow> string \<Rightarrow> json" where
  "field item key =
     (case item of
        JDict kvs \<Rightarrow> (case map_of kvs key of Some v \<Rightarrow> v | None \<Rightarrow> JNull)
      | _ \<Rightarrow> JNull)"

definition record_of :: "json \<Rightarrow> json" where
  "record_of item =
     JDict [(''id'', JStr (py_str (field item ''category''))), (''image'', field item ''image'')]"

definition banner_items :: "json \<Rightarrow> exn + json list" where
  "banner_items component =
     (case py_get component ''config'' (JDict []) of
        Inl e \<Rightarrow> Inl e
      | Inr config \<Rightarrow>
          (case py_get config ''items'' (JList []) of
             Inl e \<Rightarrow> Inl e
           | Inr items_value \<Rightarrow> py_iter items_value))"

definition qualifies :: "json \<Rightarrow> exn + bool" where
  "qualifies component =
     (case py_get component ''layout'' JNull of
        Inl e \<Rightarrow> Inl e
      | Inr layout \<Rightarrow>
          if layout = JStr ''banner'' then
            (case banner_items component of
               Inl e \<Rightarrow> Inl e
             | Inr items \<Rightarrow> all_main_category items)
          else Inr False)"

fun first_failure :: "json list \<Rightarrow> exn option" where
  "first_failure [] = None"
| "first_failure (c # cs) =
     (case qualifies c of Inl e \<Rightarrow> Some e | Inr b \<Rightarrow> first_failure cs)"

definition extracted :: "json \<Rightarrow> bool" where
  "extracted c = (qualifies c = Inr True)"

definition contributed :: "json \<Rightarrow> json list" where
  "contributed c =
     (if extracted c
      then (case banner_items c of Inr items \<Rightarrow> map record_of items | Inl e \<Rightarrow> [])
      else [])"

definition accumulated :: "json list \<Rightarrow> json list" where
  "accumulated cs = concat (map contributed cs)"

definition regrouped :: "json list \<Rightarrow> json list" where
  "regrouped cs =
     (if accumulated cs = [] then [] else [main_category_list (accumulated cs)])
     @ filter (\<lambda>c. \<not> extracted c) cs"

fun extracted_indices :: "nat \<Rightarrow> json list \<Rightarrow> nat list" where
  "extracted_indices i [] = []"
| "extracted_indices i (c # cs) =
     (if extracted c then [i] else []) @ extracted_indices (Suc i) cs"

section \<open>Notions used to state the claims on caches, images and the whole walk\<close>

text \<open>
  The identifiers sent to the name service and the addresses fetched, in order, and the two
  invariants of a run: nothing was requested twice, and whatever was requested is cached.
\<close>

definition wordpress_requests :: "request list \<Rightarrow> string list" where
  "wordpress_requests rs = concat (map (\<lambda>r. case r of WordpressRequest i \<Rightarrow> [i] | _ \<Rightarrow> []) rs)"

definition image_requests :: "request list \<Rightarrow> string list" where
  "image_requests rs = concat (map (\<lambda>r. case r of ImageRequest u \<Rightarrow> [u] | _ \<Rightarrow> []) rs)"

definition lookups_memoized :: "state \<Rightarrow> bool" where
  "lookups_memoized s =
     (distinct (wordpress_requests (sent s))
      \<and> (\<forall>i \<in> set (wordpress_requests (sent s)). category_cache s i \<noteq> None))"

definition fetches_memoized :: "state \<Rightarrow> bool" where
  "fetches_memoized s =
     (distinct (image_requests (sent s))
      \<and> (\<forall>u \<in> set (image_requests (sent s)). dimension_cache s u \<noteq> None))"

text \<open>The dict \<^verbatim>\<open>create_image_model\<close> builds from an address and the two optional dimensions.\<close>

definition image_descriptor :: "string \<Rightarrow> int option \<Rightarrow> int option \<Rightarrow> json" where
  "image_descriptor url width height =
     JDict ([(''imageUrl'', JStr url)]
            @ (case width of None \<Rightarrow> [] | Some w \<Rightarrow> [(''width'', JStr (str_int w))])
            @ (case height of None \<Rightarrow> [] | Some h \<Rightarrow> [(''height'', JStr (str_int h))]))"

text \<open>
  A document with nothing for the two policies to act on: no key that is a category key, no
  string directly under an image-field key or in a list under one, and no string anywhere
  that looks like an image address. And a document in which no list under the key
  \<^verbatim>\<open>components\<close> holds a component that the regrouping pass extracts or that makes it raise.
\<close>

fun no_image_or_category :: "json \<Rightarrow> bool" where
  "no_image_or_category (JDict kvs) =
     (\<forall>(key, value) \<in> set kvs.
        \<not> is_category_key key
        \<and> (case value of
             JStr t \<Rightarrow> \<not> is_image_field key
           | JList xs \<Rightarrow> (\<forall>x \<in> set xs. case x of JStr t \<Rightarrow> \<not> is_image_field key | _ \<Rightarrow> True)
           | _ \<Rightarrow> True)
        \<and> no_image_or_category value)"
| "no_image_or_category (JList xs) = (\<forall>x \<in> set xs. no_image_or_category x)"
| "no_image_or_category (JStr t) = (\<not> is_image_url (JStr t))"
| "no_image_or_category JNull = True"
| "no_image_or_category (JBool b) = True"
| "no_image_or_category (JInt i) = True"
| "no_image_or_category (JFloat f) = True"

fun no_extraction :: "json \<Rightarrow> bool" where
  "no_extraction (JDict kvs) =
     (\<forall>(key, value) \<in> set kvs.
        (key = ''components'' \<longrightarrow>
           (case value of JList xs \<Rightarrow> (\<forall>c \<in> set xs. qualifies c = Inr False) | _ \<Rightarrow> True))
        \<and> no_extraction value)"
| "no_extraction (JList xs) = (\<forall>x \<in> set xs. no_extraction x)"
| "no_extraction JNull = True"
| "no_extraction (JBool b) = True"
| "no_extraction (JInt i) = True"
| "no_extraction (JFloat f) = True"
| "no_extraction (JStr t) = True"

text \<open>
  A value stored under a key is no raw image string when the key is no image-field key, or
  the value is neither a string nor a list with a string among its elements. A value holds
  no raw image string when that is so for every entry of every dict in it, at any depth.
\<close>

definition no_raw_under :: "string \<Rightarrow> json \<Rightarrow> bool" where
  "no_raw_under key value =
     (is_image_field key \<longrightarrow>
        (case value of
           JStr t \<Rightarrow> False
         | JList xs \<Rightarrow> (\<forall>x \<in> set xs. case x of JStr t \<Rightarrow> False | _ \<Rightarrow> True)
         | _ \<Rightarrow> True))"


section \<open>Example inputs\<close>

definition grid_component :: json where
  "grid_component = JDict [(''layout'', JStr ''grid'')]"

definition empty_banner :: json where
  "empty_banner = JDict [(''layout'', JStr ''banner''), (''config'', JDict [(''items'', JList [])])]"

definition shoes_banner :: json where
  "shoes_banner =
     JDict [(''layout'', JStr ''banner''),
            (''config'',
             JDict [(''items'',
                     JList [JDict [(''isMainCategory'', JBool True), (''category'', JInt 5),
                                   (''image'', JDict [(''imageUrl'', JStr ''a.png'')])],
                            JDict [(''isMainCategory'', JBool True), (''category'', JInt 6),
                                   (''image'', JDict [(''imageUrl'', JStr ''b.png'')])]])])]"

definition hats_banner :: json where
  "hats_banner =
     JDict [(''layout'', JStr ''banner''),
            (''config'',
             JDict [(''items'',
                     JList [JDict [(''isMainCategory'', JBool True), (''category'', JInt 7),
                                   (''image'', JDict [(''imageUrl'', JStr ''c.png'')])]])])]"

definition promo_banner :: json where
  "promo_banner =
     JDict [(''layout'', JStr ''banner''),
            (''config'', JDict [(''items'', JList [JDict [(''isMainCategory'', JBool False)]])])]"

definition all_on :: config where
  "all_on = \<lparr>fetch_dimensions = True, cache_dimensions = True, convert_category_ids = True\<rparr>"

definition no_dimensions :: config where
  "no_dimensions = \<lparr>fetch_dimensions = False, cache_dimensions = True, convert_category_ids = True\<rparr>"

definition shop_services :: services where
  "shop_services =
     \<lparr>image_service = (\<lambda>h url. if url = ''a.png'' then Fetched 200 (Some (640, 480))
                   else if url = ''gone.png'' then Fetched 404 (Some (640, 480))
                   else if url = ''broken.png'' then Fetched 200 None
                   else ConnectionFailed),
      wordpress_service =
        (\<lambda>h i. if i = ''42'' then Response 200 (Some (JList [JDict [(''name'', JStr ''Shoes'')]]))
               else if i = ''7'' then Response 200 (Some (JList [JDict [(''name'', JStr ''Hats'')]]))
               else if i = ''9'' then RequestFailed
               else Response 200 (Some (JList []))),
      odoo_service =
        (\<lambda>h name. if name = ''Shoes''
                  then Response 200
                         (Some (JDict [(''status'', JStr ''success''),
                                       (''data'', JList [JDict [(''mattaId'', JInt 777)]])]))
                  else Response 404 None)\<rparr>"

definition category_document :: json where
  "category_document =
     JDict [(''category'', JStr ''42''), (''categoryId'', JInt 42),
            (''items'', JList [JDict [(''Category'', JStr ''42'')], JDict [(''category'', JInt 7)]])]"

definition image_document :: json where
  "image_document =
     JDict [(''logo'', JStr ''a.png''), (''thumbnail'', JStr ''missing''),
            (''slider_images'', JList [JStr ''a.png'', JStr ''missing'', JStr ''missing''])]"

definition plain_document :: json where
  "plain_document =
     JDict [(''title'', JStr ''Home''), (''count'', JInt 3), (''ratio'', JFloat ''0.5''),
            (''tags'', JList [JStr ''new'', JList [JStr ''a'', JNull]]),
            (''components'',
             JList [JDict [(''layout'', JStr ''grid''), (''visible'', JBool True)],
                    JDict [(''layout'', JStr ''banner''),
                           (''config'', JDict [(''items'', JList [JDict [(''label'', JStr ''x'')]])])]])]"

definition storefront_components :: "json list" where
  "storefront_components =
     [JDict [(''layout'', JStr ''banner''),
             (''config'',
              JDict [(''items'',
                      JList [JDict [(''isMainCategory'', JBool True), (''category'', JInt 42),
                                    (''image'', JStr ''a.png'')],
                             JDict [(''isMainCategory'', JBool True),
                                    (''image'', JStr ''plain'')]])])],
      JDict [(''layout'', JStr ''grid'')]]"

definition storefront_transformed :: "json list" where
  "storefront_transformed =
     [JDict [(''layout'', JStr ''banner''),
             (''config'',
              JDict [(''items'',
                      JList [JDict [(''isMainCategory'', JBool True), (''category'', JInt 777),
                                    (''image'',
                                     JDict [(''imageUrl'', JStr ''a.png''),
                                            (''width'', JStr ''640''),
                                            (''height'', JStr ''480'')])],
                             JDict [(''isMainCategory'', JBool True),
                                    (''image'', JDict [(''imageUrl'', JStr ''plain'')])]])])],
      JDict [(''layout'', JStr ''grid'')]]"

text \<open>A catalog that answers with the identifier 0, and a host that answers 300 with an image.\<close>

definition zero_id_services :: services where
  "zero_id_services =
     \<lparr>image_service = (\<lambda>h url. ConnectionFailed),
      wordpress_service =
        (\<lambda>h i. Response 200 (Some (JList [JDict [(''name'', JStr ''Shoes'')]]))),
      odoo_service =
        (\<lambda>h name. Response 200
                     (Some (JDict [(''status'', JStr ''success''),
                                   (''data'', JList [JDict [(''mattaId'', JInt 0)]])])))\<rparr>"

definition multiple_choices_services :: services where
  "multiple_choices_services =
     \<lparr>image_service = (\<lambda>h url. Fetched 300 (Some (640, 480))),
      wordpress_service = (\<lambda>h i. RequestFailed),
      odoo_service = (\<lambda>h name. RequestFailed)\<rparr>"


section \<open>The regrouping pass, characterised\<close>

lemma py_get_field: "py_get item key JNull = Inr v \<Longrightarrow> field item key = v"
  by (auto simp: py_get_def field_def split: json.splits option.splits)

lemma all_main_category_dict:
  "all_main_category items = Inr True \<Longrightarrow> item \<in> set items \<Longrightarrow> \<exists>kvs. item = JDict kvs"
  by (induction items) (auto simp: py_get_def split: sum.splits if_splits json.splits)

lemma main_category_record_dict: "main_category_record (JDict kvs) = Inr (record_of (JDict kvs))"
  by (simp add: main_category_record_def record_of_def py_get_def field_def split: option.splits)

lemma append_records_all:
  "\<forall>item \<in> set items. \<exists>kvs. item = JDict kvs \<Longrightarrow>
   append_records acc items = Inr (acc @ map record_of items)"
  by (induction items arbitrary: acc) (auto simp: main_category_record_dict)

lemma append_records_main:
  "all_main_category items = Inr True \<Longrightarrow>
   append_records acc items = Inr (acc @ map record_of items)"
  using all_main_category_dict append_records_all by blast

lemma scan_components_eq:
  "scan_components cs i acc rem =
     (case first_failure cs of
        Some e \<Rightarrow> Inl e
      | None \<Rightarrow> Inr (acc @ accumulated cs, rem @ extracted_indices i cs))"
proof (induction cs arbitrary: i acc rem)
  case Nil
  show ?case by (simp add: accumulated_def)
next
  case (Cons c cs)
  show ?case
  proof (cases "qualifies c")
    case (Inl e)
    then show ?thesis
      by (auto simp: qualifies_def banner_items_def split: sum.splits if_splits)
  next
    case (Inr b)
    show ?thesis
    proof (cases b)
      case True
      with Inr have q: "qualifies c = Inr True" by simp
      then obtain items where it: "banner_items c = Inr items" "all_main_category items = Inr True"
        by (auto simp: qualifies_def split: sum.splits if_splits)
      have ex: "extracted c" using q by (simp add: extracted_def)
      have co: "contributed c = map record_of items" using ex it by (simp add: contributed_def)
      from q it show ?thesis
        using Cons.IH [of "Suc i" "acc @ map record_of items" "rem @ [i]"]
        by (auto simp: qualifies_def banner_items_def accumulated_def co ex append_records_main
                 split: sum.splits if_splits option.splits)
    next
      case False
      with Inr have q: "qualifies c = Inr False" by simp
      have ex: "\<not> extracted c" using q by (simp add: extracted_def)
      have co: "contributed c = []" using ex by (simp add: contributed_def)
      from q show ?thesis
        using Cons.IH [of "Suc i" acc rem]
        by (auto simp: qualifies_def banner_items_def accumulated_def co ex
                 split: sum.splits if_splits option.splits)
    qed
  qed
qed

lemma extracted_indices_append:
  "extracted_indices i (xs @ ys) = extracted_indices i xs @ extracted_indices (i + length xs) ys"
  by (induction xs arbitrary: i) auto

lemma extracted_indices_bound:
  "j \<in> set (extracted_indices i cs) \<Longrightarrow> i \<le> j \<and> j < i + length cs"
  by (induction cs arbitrary: i) (fastforce split: if_splits)+

lemma pop_append:
  "pop j xs = Inr xs' \<Longrightarrow> pop j (xs @ ys) = Inr (xs' @ ys)"
  by (auto simp: pop_def split: if_splits)

lemma pop_all_append:
  "pop_all js xs = Inr r \<Longrightarrow> pop_all js (xs @ ys) = Inr (r @ ys)"
proof (induction js arbitrary: xs)
  case Nil
  then show ?case by simp
next
  case (Cons j js)
  then obtain xs' where p: "pop j xs = Inr xs'" and rest: "pop_all js xs' = Inr r"
    by (auto split: sum.splits)
  from Cons.IH [OF rest] pop_append [OF p] show ?case by simp
qed

lemma pop_all_extracted:
  "pop_all (rev (extracted_indices 0 cs)) cs = Inr (filter (\<lambda>c. \<not> extracted c) cs)"
proof (induction cs rule: rev_induct)
  case Nil
  show ?case by simp
next
  case (snoc c cs)
  show ?case
  proof (cases "extracted c")
    case True
    have "pop (length cs) (cs @ [c]) = Inr cs" by (simp add: pop_def)
    with True snoc show ?thesis by (simp add: extracted_indices_append)
  next
    case False
    with pop_all_append [OF snoc, of "[c]"] show ?thesis
      by (simp add: extracted_indices_append)
  qed
qed

lemma collect_main_category_items_eq:
  "collect_main_category_items cs =
     (case first_failure cs of Some e \<Rightarrow> Inl e | None \<Rightarrow> Inr (regrouped cs))"
  by (simp add: collect_main_category_items_def scan_components_eq pop_all_extracted regrouped_def
           split: option.splits)

section \<open>Category lookups\<close>

lemma py_str_JInt: "py_str (JInt n) = str_int n"
  by (simp add: py_str_def)

lemma py_str_JStr: "py_str (JStr t) = t"
  by (simp add: py_str_def)

lemma convert_category_id_miss:
  assumes "convert_category_ids cfg" and "category_cache s category_id = None"
  shows "fst (convert_category_id cfg srv category_id s) =
           (case wordpress_name (wordpress_service srv (sent s) category_id) of
              JNull \<Rightarrow> category_id
            | JStr name \<Rightarrow>
                (case odoo_id (odoo_service srv (sent s @ [WordpressRequest category_id]) name) of
                   None \<Rightarrow> ''1139''
                 | Some odoo \<Rightarrow> odoo)
            | _ \<Rightarrow> ''1139'')"
  using assms
  by (simp add: convert_category_id_def get_wordpress_category_name_def get_odoo_category_id_def
                send_def
           split: json.splits option.splits prod.splits)

lemma isdigit_char_digit: "d < 10 \<Longrightarrow> isdigit_char (digit_char d)"
  by (simp add: isdigit_char_def digit_char_def)

lemma str_nat_digits: "list_all isdigit_char (str_nat n) \<and> str_nat n \<noteq> []"
proof (induction n rule: str_nat.induct)
  case (1 n)
  show ?case
  proof (cases "n < 10")
    case True
    then show ?thesis by (subst str_nat.simps, subst str_nat.simps) (simp add: isdigit_char_digit)
  next
    case False
    with 1 show ?thesis
      by (subst str_nat.simps, subst str_nat.simps) (simp add: isdigit_char_digit)
  qed
qed

lemma isdigit_str_int: "0 \<le> n \<Longrightarrow> isdigit (str_int n)"
  by (simp add: isdigit_def str_int_def str_nat_digits)

lemma not_isdigit_negative: "n < 0 \<Longrightarrow> \<not> isdigit (str_int n)"
  by (simp add: isdigit_def str_int_def isdigit_char_def)

lemma not_isdigit_bool: "\<not> isdigit (py_str (JBool b))"
  by (simp add: isdigit_def py_str_def isdigit_char_def)

lemma lower_image_fields:
  "map lower IMAGE_FIELDS =
     [''image'', ''small_img'', ''slider_images'', ''hometabbarbackgroundimage'',
      ''sectiontabbackgroundimage'', ''sectionbackgrondimg'', ''influencer_pfp'',
      ''backgroundimage'', ''banner_image'', ''profile_image'', ''thumbnail'',
      ''cover_image'', ''logo'', ''icon'']"
  by code_simp

lemma category_key_not_image_field: "is_category_key key \<Longrightarrow> \<not> is_image_field key"
  by (auto simp: is_category_key_def is_image_field_def lower_image_fields)

lemma image_field_not_category_key: "is_image_field key \<Longrightarrow> \<not> is_category_key key"
  using category_key_not_image_field by blast

lemma transform_value_digit_string:
  assumes "is_category_key key" and "isdigit t"
  shows "transform_value cfg srv key (JStr t) s =
           (case convert_category_id cfg srv t s of (converted_id, s') \<Rightarrow> (Inr (JStr converted_id), s'))"
  using assms
  by (simp add: transform_value.simps is_str_or_int_def is_int_def py_str_def split: prod.splits)

lemma transform_value_natural:
  assumes "is_category_key key" and "0 \<le> n"
  shows "transform_value cfg srv key (JInt n) s =
           (case convert_category_id cfg srv (str_int n) s of
              (converted_id, s') \<Rightarrow>
                (case py_int converted_id of
                   Some m \<Rightarrow> (Inr (JInt m), s')
                 | None \<Rightarrow> (Inr (JStr converted_id), s')))"
  using assms
  by (simp add: transform_value.simps is_str_or_int_def is_int_def py_str_JInt isdigit_str_int
           split: prod.splits)

lemma transform_value_category_other:
  assumes "is_category_key key"
    and "value = JNull \<or> (\<exists>b. value = JBool b) \<or> (\<exists>f. value = JFloat f)
         \<or> (\<exists>n. value = JInt n \<and> n < 0)
         \<or> (\<exists>t. value = JStr t \<and> \<not> isdigit t \<and> \<not> is_image_url value)"
  shows "transform_value cfg srv key value s = (Inr value, s)"
  using assms
  by (auto simp: transform_value.simps is_str_or_int_def is_int_def py_str_JInt
                 not_isdigit_negative not_isdigit_bool category_key_not_image_field py_str_JStr)

lemma create_image_model_fetched:
  "create_image_model cfg srv url None None s =
     (case get_image_dimensions cfg srv url s of
        ((width, height), s') \<Rightarrow> (image_descriptor url width height, s'))"
  by (simp add: create_image_model_def image_descriptor_def py_or_def split: prod.splits)

lemma transform_value_image_field:
  assumes "is_image_field key"
  shows "transform_value cfg srv key (JStr url) s =
           (case get_image_dimensions cfg srv url s of
              ((width, height), s') \<Rightarrow> (Inr (image_descriptor url width height), s'))"
  using assms image_field_not_category_key [OF assms]
  by (simp add: transform_value.simps create_image_model_fetched split: prod.splits)

lemma transform_value_category_image_string:
  assumes "is_category_key key" and "\<not> isdigit t" and "is_image_url (JStr t)"
  shows "transform_value cfg srv key (JStr t) s =
           (case create_image_model cfg srv t None None s of (model, s') \<Rightarrow> (Inr model, s'))"
  using assms by (simp add: transform_value.simps py_str_JStr)

lemma transform_value_JList:
  "transform_value cfg srv key (JList xs) s =
     (case transform_value_list cfg srv key xs [] s of
        (Inl e, s') \<Rightarrow> (Inl e, s')
      | (Inr transformed_list, s') \<Rightarrow> (Inr (JList transformed_list), s'))"
  by (simp add: transform_value.simps is_str_or_int_def)

lemma transform_value_JDict:
  "transform_value cfg srv key (JDict kvs) s = transform_data cfg srv (JDict kvs) s"
  by (simp add: transform_value.simps is_str_or_int_def)

section \<open>What the walk does to the state\<close>

lemma create_image_model_state:
  "snd (create_image_model cfg srv url None None s) = snd (get_image_dimensions cfg srv url s)"
  by (simp add: create_image_model_def split: prod.splits)

lemma transform_data_JList_state:
  "snd (transform_data cfg srv (JList xs) s) = snd (transform_data_list cfg srv xs s)"
  by (simp split: prod.splits sum.splits)

lemma transform_data_JDict_state:
  "snd (transform_data cfg srv (JDict kvs) s) = snd (transform_data_items cfg srv kvs [] s)"
  by (simp split: prod.splits sum.splits)

lemma transform_data_list_preserves:
  assumes "\<And>x s. x \<in> set xs \<Longrightarrow> I s \<Longrightarrow> I (snd (transform_data cfg srv x s))"
  shows "I s \<Longrightarrow> I (snd (transform_data_list cfg srv xs s))"
  using assms
proof (induction xs arbitrary: s)
  case Nil
  then show ?case by simp
next
  case (Cons x xs)
  have a: "I (snd (transform_data cfg srv x s))"
    using Cons.prems by simp
  show ?case
  proof (cases "transform_data cfg srv x s")
    case (Pair r s')
    with a have s': "I s'" by simp
    have "I (snd (transform_data_list cfg srv xs s'))"
      using Cons.IH [OF s'] Cons.prems(2) by simp
    with Pair s' show ?thesis
      by (auto split: sum.splits prod.splits)
  qed
qed

lemma transform_value_list_preserves:
  assumes "\<And>url s. I s \<Longrightarrow> I (snd (get_image_dimensions cfg srv url s))"
    and "\<And>x s. x \<in> set xs \<Longrightarrow> I s \<Longrightarrow> I (snd (transform_data cfg srv x s))"
  shows "I s \<Longrightarrow> I (snd (transform_value_list cfg srv key xs acc s))"
  using assms(2)
proof (induction xs arbitrary: s acc)
  case Nil
  then show ?case by simp
next
  case (Cons x xs)
  let ?step = "(case x of
              JStr t \<Rightarrow>
                if is_image_field key \<or> is_image_url x then
                  (case create_image_model cfg srv t None None s of
                     (model, s') \<Rightarrow> (Inr model, s'))
                else transform_data cfg srv x s
            | _ \<Rightarrow> transform_data cfg srv x s)"
  have d: "I (snd (transform_data cfg srv x s))"
    using Cons.prems by simp
  have m: "I (snd (create_image_model cfg srv t None None s))" for t
    using Cons.prems(1) assms(1) by (simp add: create_image_model_state)
  have e: "snd ?step =
             (case x of
                JStr t \<Rightarrow>
                  if is_image_field key \<or> is_image_url x
                  then snd (create_image_model cfg srv t None None s)
                  else snd (transform_data cfg srv x s)
              | _ \<Rightarrow> snd (transform_data cfg srv x s))"
    by (simp split: json.splits prod.splits)
  have a: "I (snd ?step)"
    unfolding e using d m by (cases x) simp_all
  show ?case
  proof (cases ?step)
    case (Pair r s')
    with a have s': "I s'" by simp
    have "I (snd (transform_value_list cfg srv key xs acc' s'))" for acc'
      using Cons.IH [OF s'] Cons.prems(2) by simp
    with Pair s' show ?thesis
      by (simp split: sum.splits)
  qed
qed

lemma transform_data_items_preserves:
  assumes "\<And>k v s. (k, v) \<in> set kvs \<Longrightarrow> I s \<Longrightarrow> I (snd (transform_value cfg srv k v s))"
    and "\<And>k xs s. (k, JList xs) \<in> set kvs \<Longrightarrow> I s \<Longrightarrow> I (snd (transform_data_list cfg srv xs s))"
  shows "I s \<Longrightarrow> I (snd (transform_data_items cfg srv kvs acc s))"
  using assms
proof (induction kvs arbitrary: s acc)
  case Nil
  then show ?case by simp
next
  case (Cons kv kvs)
  obtain key "value" where kv: "kv = (key, value)" by (cases kv)
  let ?step = "(case value of
              JList xs \<Rightarrow>
                if key = ''components'' then
                  (case transform_data_list cfg srv xs s of
                     (Inl e, s') \<Rightarrow> (Inl e, s')
                   | (Inr ys, s') \<Rightarrow>
                       (case collect_main_category_items ys of
                          Inl e \<Rightarrow> (Inl e, s')
                        | Inr components \<Rightarrow> (Inr (JList components), s')))
                else transform_value cfg srv key value s
            | _ \<Rightarrow> transform_value cfg srv key value s)"
  have v: "I (snd (transform_value cfg srv key value s))"
    using Cons.prems kv by simp
  have l: "I (snd (transform_data_list cfg srv xs s))" if "value = JList xs" for xs
    using Cons.prems(3) [of key xs s] Cons.prems(1) kv that by simp
  have e: "snd ?step =
             (case value of
                JList xs \<Rightarrow>
                  if key = ''components'' then snd (transform_data_list cfg srv xs s)
                  else snd (transform_value cfg srv key value s)
              | _ \<Rightarrow> snd (transform_value cfg srv key value s))"
    by (simp split: json.splits prod.splits sum.splits)
  have a: "I (snd ?step)"
    unfolding e using v l by (cases "value") simp_all
  show ?case
  proof (cases ?step)
    case (Pair r s')
    with a have s': "I s'" by simp
    have "I (snd (transform_data_items cfg srv kvs acc' s'))" for acc'
    proof (rule Cons.IH [OF s'])
      show "I (snd (transform_value cfg srv k v t))" if "(k, v) \<in> set kvs" "I t" for k v t
        using Cons.prems(2) [of k v t] that by simp
      show "I (snd (transform_data_list cfg srv xs t))" if "(k, JList xs) \<in> set kvs" "I t"
        for k xs t
        using Cons.prems(3) [of k xs t] that by simp
    qed
    with Pair s' show ?thesis
      unfolding kv by (simp split: sum.splits)
  qed
qed

lemma transform_value_state:
  "snd (transform_value cfg srv key value s) =
     (if is_category_key key \<and> is_str_or_int value \<and> isdigit (py_str value)
      then snd (convert_category_id cfg srv (py_str value) s)
      else
        (case value of
           JStr t \<Rightarrow>
             if is_image_field key \<or> is_image_url value
             then snd (get_image_dimensions cfg srv t s) else s
         | JList xs \<Rightarrow> snd (transform_value_list cfg srv key xs [] s)
         | JDict kvs \<Rightarrow> snd (transform_data cfg srv value s)
         | _ \<Rightarrow> s))"
  by (simp add: transform_value.simps create_image_model_state [symmetric]
           split: json.splits prod.splits sum.splits option.splits)

lemma transform_preserves_both:
  assumes img: "\<And>url s. I s \<Longrightarrow> I (snd (get_image_dimensions cfg srv url s))"
    and cat: "\<And>cid s. I s \<Longrightarrow> I (snd (convert_category_id cfg srv cid s))"
  shows "(\<forall>s. I s \<longrightarrow> I (snd (transform_data cfg srv d s)))
         \<and> (\<forall>s key. I s \<longrightarrow> I (snd (transform_value cfg srv key d s)))"
proof (induction d)
  case JNull
  show ?case using cat by (simp add: transform_value_state)
next
  case (JBool b)
  show ?case using cat by (simp add: transform_value_state)
next
  case (JInt i)
  show ?case using cat by (simp add: transform_value_state)
next
  case (JFloat f)
  show ?case using cat by (simp add: transform_value_state)
next
  case (JStr t)
  show ?case using cat img by (simp add: transform_value_state)
next
  case (JList xs)
  have d: "I (snd (transform_data cfg srv x s))" if "x \<in> set xs" "I s" for x s
    using JList that by simp
  have 1: "I (snd (transform_data cfg srv (JList xs) s))" if "I s" for s
    unfolding transform_data_JList_state
    using transform_data_list_preserves [of xs I cfg srv s] d that by blast
  have 2: "I (snd (transform_value cfg srv key (JList xs) s))" if "I s" for s key
  proof -
    have "I (snd (transform_value_list cfg srv key xs [] s))"
      using transform_value_list_preserves [of I cfg srv xs s key "[]"] img d that by blast
    then show ?thesis
      by (simp add: transform_value_state is_str_or_int_def)
  qed
  show ?case using 1 2 by blast
next
  case (JDict kvs)
  have v: "I (snd (transform_value cfg srv k v s))" if "(k, v) \<in> set kvs" "I s" for k v s
  proof -
    have "v \<in> Basic_BNFs.snds (k, v)" by simp
    with JDict that show ?thesis by blast
  qed
  have l: "I (snd (transform_data_list cfg srv xs s))" if "(k, JList xs) \<in> set kvs" "I s" for k xs s
  proof -
    have "JList xs \<in> Basic_BNFs.snds (k, JList xs)" by simp
    with JDict that have "I (snd (transform_data cfg srv (JList xs) s))" by blast
    then show ?thesis by (simp only: transform_data_JList_state)
  qed
  have 1: "I (snd (transform_data cfg srv (JDict kvs) s))" if "I s" for s
    unfolding transform_data_JDict_state
    using transform_data_items_preserves [of kvs I cfg srv s "[]"] v l that by blast
  have 2: "I (snd (transform_value cfg srv key (JDict kvs) s))" if "I s" for s key
    using 1 that by (simp add: transform_value_state is_str_or_int_def)
  show ?case using 1 2 by blast
qed

lemma transform_data_preserves:
  assumes "\<And>url s. I s \<Longrightarrow> I (snd (get_image_dimensions cfg srv url s))"
    and "\<And>cid s. I s \<Longrightarrow> I (snd (convert_category_id cfg srv cid s))"
    and "I s"
  shows "I (snd (transform_data cfg srv d s))"
  using transform_preserves_both [of I cfg srv d] assms by blast

section \<open>Caches and requests\<close>

lemma wordpress_requests_simps [simp]:
  "wordpress_requests [] = []"
  "wordpress_requests (rs @ rs') = wordpress_requests rs @ wordpress_requests rs'"
  "wordpress_requests (WordpressRequest i # rs) = i # wordpress_requests rs"
  "wordpress_requests (OdooRequest n # rs) = wordpress_requests rs"
  "wordpress_requests (ImageRequest u # rs) = wordpress_requests rs"
  by (simp_all add: wordpress_requests_def)

lemma image_requests_simps [simp]:
  "image_requests [] = []"
  "image_requests (rs @ rs') = image_requests rs @ image_requests rs'"
  "image_requests (ImageRequest u # rs) = u # image_requests rs"
  "image_requests (OdooRequest n # rs) = image_requests rs"
  "image_requests (WordpressRequest i # rs) = image_requests rs"
  by (simp_all add: image_requests_def)

text \<open>What each leaf operation does to the state.\<close>

lemma get_image_dimensions_category_cache:
  "category_cache (snd (get_image_dimensions cfg srv url s)) = category_cache s"
  by (simp add: get_image_dimensions_def send_def Let_def split: option.splits prod.splits)

lemma get_image_dimensions_wordpress:
  "wordpress_requests (sent (snd (get_image_dimensions cfg srv url s))) = wordpress_requests (sent s)"
  by (simp add: get_image_dimensions_def send_def Let_def split: option.splits prod.splits)

lemma convert_category_id_dimension_cache:
  "dimension_cache (snd (convert_category_id cfg srv cid s)) = dimension_cache s"
  by (simp add: convert_category_id_def get_wordpress_category_name_def get_odoo_category_id_def
                send_def memoize_def split: option.splits json.splits prod.splits)

lemma convert_category_id_images:
  "image_requests (sent (snd (convert_category_id cfg srv cid s))) = image_requests (sent s)"
  by (simp add: convert_category_id_def get_wordpress_category_name_def get_odoo_category_id_def
                send_def memoize_def split: option.splits json.splits prod.splits)

lemma convert_category_id_hit:
  "convert_category_ids cfg \<Longrightarrow> category_cache s cid = Some v \<Longrightarrow>
   convert_category_id cfg srv cid s = (v, s)"
  by (simp add: convert_category_id_def)

lemma convert_category_id_memoized:
  "convert_category_ids cfg \<Longrightarrow>
   category_cache (snd (convert_category_id cfg srv cid s)) cid =
     Some (fst (convert_category_id cfg srv cid s))"
  by (simp add: convert_category_id_def get_wordpress_category_name_def get_odoo_category_id_def
                send_def memoize_def split: option.splits json.splits prod.splits)

lemma convert_category_id_keeps:
  "category_cache s i = Some v \<Longrightarrow>
   category_cache (snd (convert_category_id cfg srv cid s)) i = Some v"
  by (auto simp: convert_category_id_def get_wordpress_category_name_def get_odoo_category_id_def
                send_def memoize_def split: option.splits json.splits prod.splits)

lemma convert_category_id_requests:
  "wordpress_requests (sent (snd (convert_category_id cfg srv cid s))) =
     (if convert_category_ids cfg \<and> category_cache s cid = None
      then wordpress_requests (sent s) @ [cid] else wordpress_requests (sent s))"
  by (simp add: convert_category_id_def get_wordpress_category_name_def get_odoo_category_id_def
                send_def memoize_def split: option.splits json.splits prod.splits)

lemma convert_category_id_lookups:
  assumes "lookups_memoized s"
  shows "lookups_memoized (snd (convert_category_id cfg srv cid s))"
proof -
  let ?s' = "snd (convert_category_id cfg srv cid s)"
  have keep: "category_cache ?s' i \<noteq> None" if "category_cache s i \<noteq> None" for i
    using that convert_category_id_keeps [of s i _ cfg srv cid] by auto
  show ?thesis
  proof (cases "convert_category_ids cfg \<and> category_cache s cid = None")
    case True
    then have new: "cid \<notin> set (wordpress_requests (sent s))"
      using assms by (auto simp: lookups_memoized_def)
    have "category_cache ?s' cid \<noteq> None"
      using True convert_category_id_memoized [of cfg srv cid s] by simp
    with True new keep assms show ?thesis
      by (auto simp: lookups_memoized_def convert_category_id_requests)
  next
    case False
    with keep assms show ?thesis
      by (auto simp: lookups_memoized_def convert_category_id_requests)
  qed
qed

lemma get_image_dimensions_lookups:
  "lookups_memoized s \<Longrightarrow> lookups_memoized (snd (get_image_dimensions cfg srv url s))"
  by (simp add: lookups_memoized_def get_image_dimensions_category_cache
                get_image_dimensions_wordpress)

lemma get_image_dimensions_hit:
  "fetch_dimensions cfg \<Longrightarrow> cache_dimensions cfg \<Longrightarrow> dimension_cache s url = Some d \<Longrightarrow>
   get_image_dimensions cfg srv url s = (d, s)"
  by (simp add: get_image_dimensions_def)

lemma get_image_dimensions_memoized:
  "fetch_dimensions cfg \<Longrightarrow> cache_dimensions cfg \<Longrightarrow>
   dimension_cache (snd (get_image_dimensions cfg srv url s)) url =
     Some (fst (get_image_dimensions cfg srv url s))"
  by (auto simp: get_image_dimensions_def send_def Let_def split: option.splits prod.splits)

lemma get_image_dimensions_keeps:
  "dimension_cache s u = Some d \<Longrightarrow>
   dimension_cache (snd (get_image_dimensions cfg srv url s)) u = Some d"
  by (cases d) (auto simp: get_image_dimensions_def send_def Let_def split: option.splits prod.splits)

lemma get_image_dimensions_requests:
  "image_requests (sent (snd (get_image_dimensions cfg srv url s))) =
     (if fetch_dimensions cfg \<and> \<not> (cache_dimensions cfg \<and> dimension_cache s url \<noteq> None)
      then image_requests (sent s) @ [url] else image_requests (sent s))"
  by (auto simp: get_image_dimensions_def send_def Let_def split: option.splits prod.splits)

lemma get_image_dimensions_fetches:
  assumes "cache_dimensions cfg" and "fetches_memoized s"
  shows "fetches_memoized (snd (get_image_dimensions cfg srv url s))"
proof -
  let ?s' = "snd (get_image_dimensions cfg srv url s)"
  have keep: "dimension_cache ?s' u \<noteq> None" if "dimension_cache s u \<noteq> None" for u
    using that get_image_dimensions_keeps [of s u _ cfg srv url] by auto
  show ?thesis
  proof (cases "fetch_dimensions cfg \<and> dimension_cache s url = None")
    case True
    then have new: "url \<notin> set (image_requests (sent s))"
      using assms by (auto simp: fetches_memoized_def)
    have "dimension_cache ?s' url \<noteq> None"
      using True assms(1) get_image_dimensions_memoized [of cfg srv url s] by simp
    with True new keep assms show ?thesis
      by (auto simp: fetches_memoized_def get_image_dimensions_requests)
  next
    case False
    with keep assms show ?thesis
      by (auto simp: fetches_memoized_def get_image_dimensions_requests)
  qed
qed

lemma convert_category_id_fetches:
  "fetches_memoized s \<Longrightarrow> fetches_memoized (snd (convert_category_id cfg srv cid s))"
  by (simp add: fetches_memoized_def convert_category_id_dimension_cache convert_category_id_images)

lemma initial_state_memoized: "lookups_memoized initial_state" "fetches_memoized initial_state"
  by (simp_all add: lookups_memoized_def fetches_memoized_def initial_state_def)

lemma transform_data_lookups:
  "lookups_memoized s \<Longrightarrow> lookups_memoized (snd (transform_data cfg srv doc s))"
  by (rule transform_data_preserves [where I = lookups_memoized])
     (simp_all add: get_image_dimensions_lookups convert_category_id_lookups)

lemma transform_data_fetches:
  "cache_dimensions cfg \<Longrightarrow> fetches_memoized s \<Longrightarrow>
   fetches_memoized (snd (transform_data cfg srv doc s))"
  by (rule transform_data_preserves [where I = fetches_memoized])
     (simp_all add: get_image_dimensions_fetches convert_category_id_fetches)

lemma transform_data_keeps_category:
  "category_cache s i = Some v \<Longrightarrow> category_cache (snd (transform_data cfg srv doc s)) i = Some v"
  by (rule transform_data_preserves [where I = "\<lambda>s. category_cache s i = Some v"])
     (simp_all add: get_image_dimensions_category_cache convert_category_id_keeps)

lemma transform_data_keeps_dimensions:
  "dimension_cache s u = Some d \<Longrightarrow> dimension_cache (snd (transform_data cfg srv doc s)) u = Some d"
  by (rule transform_data_preserves [where I = "\<lambda>s. dimension_cache s u = Some d"])
     (simp_all add: get_image_dimensions_keeps convert_category_id_dimension_cache)

lemma get_image_dimensions_disabled:
  "\<not> fetch_dimensions cfg \<Longrightarrow> get_image_dimensions cfg srv url s = ((None, None), s)"
  by (simp add: get_image_dimensions_def)

lemma transform_data_no_fetch:
  assumes "\<not> fetch_dimensions cfg"
  shows "image_requests (sent (snd (transform_data cfg srv doc s))) = image_requests (sent s)
         \<and> dimension_cache (snd (transform_data cfg srv doc s)) = dimension_cache s"
  by (rule transform_data_preserves
        [where I = "\<lambda>t. image_requests (sent t) = image_requests (sent s)
                        \<and> dimension_cache t = dimension_cache s"])
     (simp_all add: get_image_dimensions_disabled assms convert_category_id_dimension_cache
                    convert_category_id_images)

section \<open>Documents the walk leaves as they are\<close>

lemma transform_data_list_unchanged:
  assumes "\<And>x s. x \<in> set xs \<Longrightarrow> transform_data cfg srv x s = (Inr x, s)"
  shows "transform_data_list cfg srv xs s = (Inr xs, s)"
  using assms by (induction xs arbitrary: s) simp_all

lemma transform_value_list_unchanged:
  assumes "\<And>x s. x \<in> set xs \<Longrightarrow> transform_data cfg srv x s = (Inr x, s)"
    and "\<And>t. JStr t \<in> set xs \<Longrightarrow> \<not> is_image_field key \<and> \<not> is_image_url (JStr t)"
  shows "transform_value_list cfg srv key xs acc s = (Inr (acc @ xs), s)"
  using assms
proof (induction xs arbitrary: acc s)
  case Nil
  show ?case by simp
next
  case (Cons x xs)
  have d: "transform_data cfg srv x s = (Inr x, s)"
    using Cons.prems(1) by simp
  have i: "\<not> is_image_field key \<and> \<not> is_image_url (JStr t)" if "x = JStr t" for t
    using Cons.prems(2) [of t] that by simp
  have r: "transform_value_list cfg srv key xs (acc @ [x]) s = (Inr ((acc @ [x]) @ xs), s)"
    by (rule Cons.IH) (use Cons.prems in auto)
  show ?case
    using d i r by (cases x) simp_all
qed

lemma transform_data_items_unchanged:
  assumes "\<And>k v s. (k, v) \<in> set kvs \<Longrightarrow> \<not> (k = ''components'' \<and> (\<exists>xs. v = JList xs)) \<Longrightarrow>
             transform_value cfg srv k v s = (Inr v, s)"
    and "\<And>xs s. (''components'', JList xs) \<in> set kvs \<Longrightarrow>
             transform_data_list cfg srv xs s = (Inr xs, s)"
    and "\<And>xs. (''components'', JList xs) \<in> set kvs \<Longrightarrow> collect_main_category_items xs = Inr xs"
  shows "transform_data_items cfg srv kvs acc s = (Inr (acc @ kvs), s)"
  using assms
proof (induction kvs arbitrary: acc s)
  case Nil
  show ?case by simp
next
  case (Cons kv kvs)
  obtain key "value" where kv: "kv = (key, value)" by (cases kv)
  have r: "transform_data_items cfg srv kvs (acc @ [(key, value)]) s
             = (Inr ((acc @ [(key, value)]) @ kvs), s)"
    by (rule Cons.IH) (use Cons.prems in auto)
  show ?case
  proof (cases "key = ''components'' \<and> (\<exists>xs. value = JList xs)")
    case True
    then obtain xs where v: "value = JList xs" by blast
    have "transform_data_list cfg srv xs s = (Inr xs, s)"
      using Cons.prems(2) [of xs s] True v kv by simp
    moreover have "collect_main_category_items xs = Inr xs"
      using Cons.prems(3) [of xs] True v kv by simp
    ultimately show ?thesis
      using True v r unfolding kv by simp
  next
    case False
    have "transform_value cfg srv key value s = (Inr value, s)"
      using Cons.prems(1) [of key "value" s] False kv by simp
    then show ?thesis
      using False r unfolding kv by (cases "value") auto
  qed
qed

lemma first_failure_quiet: "\<forall>c \<in> set xs. qualifies c = Inr False \<Longrightarrow> first_failure xs = None"
  by (induction xs) simp_all

lemma collect_main_category_items_quiet:
  assumes "\<forall>c \<in> set xs. qualifies c = Inr False"
  shows "collect_main_category_items xs = Inr xs"
proof -
  have e: "\<not> extracted c" if "c \<in> set xs" for c
    using assms that by (simp add: extracted_def)
  then have "accumulated xs = []"
    by (simp add: accumulated_def contributed_def)
  moreover have "filter (\<lambda>c. \<not> extracted c) xs = xs"
    using e by (simp add: filter_id_conv)
  ultimately show ?thesis
    using first_failure_quiet [OF assms]
    by (simp add: collect_main_category_items_eq regrouped_def)
qed

lemma transform_value_plain_scalar:
  assumes "\<not> is_category_key key"
  shows "transform_value cfg srv key JNull s = (Inr JNull, s)"
    and "transform_value cfg srv key (JBool b) s = (Inr (JBool b), s)"
    and "transform_value cfg srv key (JInt i) s = (Inr (JInt i), s)"
    and "transform_value cfg srv key (JFloat f) s = (Inr (JFloat f), s)"
  using assms by (simp_all add: transform_value.simps)

lemma transform_value_plain_string:
  assumes "\<not> is_category_key key" and "\<not> is_image_field key" and "\<not> is_image_url (JStr t)"
  shows "transform_value cfg srv key (JStr t) s = (Inr (JStr t), s)"
  using assms by (simp add: transform_value.simps)

lemma unremarkable_unchanged:
  "no_image_or_category d \<longrightarrow> no_extraction d \<longrightarrow>
     (\<forall>s. transform_data cfg srv d s = (Inr d, s))
     \<and> (\<forall>s key.
          \<not> is_category_key key \<longrightarrow>
          (case d of
             JStr t \<Rightarrow> \<not> is_image_field key
           | JList xs \<Rightarrow> (\<forall>x \<in> set xs. case x of JStr t \<Rightarrow> \<not> is_image_field key | _ \<Rightarrow> True)
           | _ \<Rightarrow> True) \<longrightarrow>
          transform_value cfg srv key d s = (Inr d, s))"
proof (induction d)
  case JNull
  show ?case by (simp add: transform_value_plain_scalar)
next
  case (JBool b)
  show ?case by (simp add: transform_value_plain_scalar)
next
  case (JInt i)
  show ?case by (simp add: transform_value_plain_scalar)
next
  case (JFloat f)
  show ?case by (simp add: transform_value_plain_scalar)
next
  case (JStr t)
  show ?case by (simp add: transform_value_plain_string)
next
  case (JList xs)
  show ?case
  proof (intro impI conjI allI)
    assume p: "no_image_or_category (JList xs)" and q: "no_extraction (JList xs)"
    have d: "transform_data cfg srv x s = (Inr x, s)" if "x \<in> set xs" for x s
      using JList [OF that] p q that by simp
    show "transform_data cfg srv (JList xs) s = (Inr (JList xs), s)" for s
      using transform_data_list_unchanged [of xs cfg srv s] d by simp
    show "transform_value cfg srv key (JList xs) s = (Inr (JList xs), s)"
      if "\<not> is_category_key key"
        and "case JList xs of
               JStr t \<Rightarrow> \<not> is_image_field key
             | JList xs \<Rightarrow> (\<forall>x \<in> set xs. case x of JStr t \<Rightarrow> \<not> is_image_field key | _ \<Rightarrow> True)
             | _ \<Rightarrow> True"
      for s key
    proof -
      note c = \<open>case JList xs of
               JStr t \<Rightarrow> \<not> is_image_field key
             | JList xs \<Rightarrow> (\<forall>x \<in> set xs. case x of JStr t \<Rightarrow> \<not> is_image_field key | _ \<Rightarrow> True)
             | _ \<Rightarrow> True\<close>
      have i: "\<not> is_image_field key \<and> \<not> is_image_url (JStr t)" if "JStr t \<in> set xs" for t
      proof -
        have "no_image_or_category (JStr t)" using p that by auto
        moreover have "\<not> is_image_field key" using c that by fastforce
        ultimately show ?thesis by simp
      qed
      have "transform_value_list cfg srv key xs [] s = (Inr ([] @ xs), s)"
        by (rule transform_value_list_unchanged) (use d i in auto)
      then show ?thesis
        by (simp add: transform_value_JList)
    qed
  qed
next
  case (JDict kvs)
  show ?case
  proof (intro impI conjI allI)
    assume p: "no_image_or_category (JDict kvs)" and q: "no_extraction (JDict kvs)"
    have ih: "no_image_or_category v \<longrightarrow> no_extraction v \<longrightarrow>
     (\<forall>s. transform_data cfg srv v s = (Inr v, s))
     \<and> (\<forall>s key.
          \<not> is_category_key key \<longrightarrow>
          (case v of
             JStr t \<Rightarrow> \<not> is_image_field key
           | JList xs \<Rightarrow> (\<forall>x \<in> set xs. case x of JStr t \<Rightarrow> \<not> is_image_field key | _ \<Rightarrow> True)
           | _ \<Rightarrow> True) \<longrightarrow>
          transform_value cfg srv key v s = (Inr v, s))" if "(k, v) \<in> set kvs" for k v
    proof -
      have "v \<in> Basic_BNFs.snds (k, v)" by simp
      with JDict that show ?thesis by blast
    qed
    have pv: "\<not> is_category_key k \<and> no_image_or_category v \<and> no_extraction v
              \<and> (case v of
                   JStr t \<Rightarrow> \<not> is_image_field k
                 | JList xs \<Rightarrow> (\<forall>x \<in> set xs. case x of JStr t \<Rightarrow> \<not> is_image_field k | _ \<Rightarrow> True)
                 | _ \<Rightarrow> True)"
      if "(k, v) \<in> set kvs" for k v
      using p q that by auto
    have 1: "transform_value cfg srv k v s = (Inr v, s)" if "(k, v) \<in> set kvs" for k v s
      using ih [OF that] pv [OF that] by blast
    have 2: "transform_data_list cfg srv xs s = (Inr xs, s)"
      if "(''components'', JList xs) \<in> set kvs" for xs s
    proof -
      have "transform_data cfg srv (JList xs) s = (Inr (JList xs), s)"
        using ih [OF that] pv [OF that] by blast
      then show ?thesis
        by (auto split: prod.splits sum.splits)
    qed
    have 3: "collect_main_category_items xs = Inr xs"
      if "(''components'', JList xs) \<in> set kvs" for xs
    proof -
      have "\<forall>c \<in> set xs. qualifies c = Inr False"
        using q that by auto
      then show ?thesis by (rule collect_main_category_items_quiet)
    qed
    have t: "transform_data_items cfg srv kvs [] s = (Inr ([] @ kvs), s)" for s
      by (rule transform_data_items_unchanged) (use 1 2 3 in auto)
    show d: "transform_data cfg srv (JDict kvs) s = (Inr (JDict kvs), s)" for s
      using t [of s] by simp
    show "transform_value cfg srv key (JDict kvs) s = (Inr (JDict kvs), s)" for s key
      using d [of s] by (simp add: transform_value_JDict)
  qed
qed

lemma contributed_extracted:
  assumes "extracted c"
  shows "\<exists>items. banner_items c = Inr items \<and> contributed c = map record_of items"
  using assms
  by (auto simp: extracted_def contributed_def qualifies_def split: sum.splits if_splits)

lemma transform_data_items_components:
  assumes "transform_data_list cfg srv xs s = (Inr ys, s')" and "first_failure ys = None"
  shows "transform_data_items cfg srv ((''components'', JList xs) # rest) transformed s =
           transform_data_items cfg srv rest
             (transformed @ [(''components'', JList (regrouped ys))]) s'"
  using assms by (simp add: collect_main_category_items_eq)

section \<open>Image strings at any place of a document\<close>











lemma no_raw_under_dict [simp]: "no_raw_under key (JDict kvs)"
  by (simp add: no_raw_under_def)


















lemma first_failure_append:
  "first_failure (xs @ ys) = (case first_failure xs of Some e \<Rightarrow> Some e | None \<Rightarrow> first_failure ys)"
  by (induction xs) (auto split: sum.splits)

lemma accumulated_append: "accumulated (xs @ ys) = accumulated xs @ accumulated ys"
  by (simp add: accumulated_def)

lemma accumulated_Cons: "accumulated (c # cs) = contributed c @ accumulated cs"
  by (simp add: accumulated_def)

section \<open>Claims about the regrouping pass\<close>

text \<open>
  C4. When no component makes the first loop raise, the pass returns the components that
  were not extracted, in their original order, and the records of the extracted ones, in
  the order their items were met, are gathered in one \<^verbatim>\<open>mainCategoryList\<close> component put in
  front of all the others; nothing is put in front when no record was gathered.
\<close>

theorem regroup_order_and_insertion:
  assumes "first_failure cs = None"
  shows "collect_main_category_items cs =
           Inr ((if concat (map contributed cs) = [] then []
                 else [main_category_list (concat (map contributed cs))])
                @ filter (\<lambda>c. \<not> extracted c) cs)"
  using assms by (simp add: collect_main_category_items_eq regrouped_def accumulated_def)

theorem regroup_order_and_insertion_witness:
  "first_failure [grid_component, shoes_banner, promo_banner, hats_banner] = None
   \<and> collect_main_category_items [grid_component, shoes_banner, promo_banner, hats_banner] =
       Inr [JDict [(''layout'', JStr ''mainCategoryList''),
                   (''config'',
                    JDict [(''categories'',
                            JList [JDict [(''id'', JStr ''5''),
                                          (''image'', JDict [(''imageUrl'', JStr ''a.png'')])],
                                   JDict [(''id'', JStr ''6''),
                                          (''image'', JDict [(''imageUrl'', JStr ''b.png'')])],
                                   JDict [(''id'', JStr ''7''),
                                          (''image'', JDict [(''imageUrl'', JStr ''c.png'')])]])])],
            grid_component, promo_banner]"
proof -
  let ?cs = "[grid_component, shoes_banner, promo_banner, hats_banner]"
  have h: "first_failure ?cs = None"
    by code_simp
  have c: "concat (map contributed ?cs) =
             [JDict [(''id'', JStr ''5''), (''image'', JDict [(''imageUrl'', JStr ''a.png'')])],
              JDict [(''id'', JStr ''6''), (''image'', JDict [(''imageUrl'', JStr ''b.png'')])],
              JDict [(''id'', JStr ''7''), (''image'', JDict [(''imageUrl'', JStr ''c.png'')])]]"
    by code_simp
  have f: "filter (\<lambda>c. \<not> extracted c) ?cs = [grid_component, promo_banner]"
    by code_simp
  show ?thesis
    using regroup_order_and_insertion [OF h] h
    unfolding c f by (simp add: main_category_list_def)
qed

text \<open>
  C1, as stated, fails: a banner whose \<^verbatim>\<open>items\<close> list is empty passes the \<^verbatim>\<open>all(...)\<close> test
  and is popped.
\<close>

theorem empty_banner_is_removed:
  "collect_main_category_items
     [JDict [(''layout'', JStr ''grid'')],
      JDict [(''layout'', JStr ''banner''), (''config'', JDict [(''items'', JList [])])]]
   = Inr [JDict [(''layout'', JStr ''grid'')]]"
  by code_simp

text \<open>
  C1, amended. A banner component whose \<^verbatim>\<open>config.items\<close> is the empty list is extracted: it
  contributes no record and the pass returns what it returns without that component.
\<close>

theorem empty_banner_extracted:
  assumes "map_of kvs ''layout'' = Some (JStr ''banner'')"
    and "map_of kvs ''config'' = Some (JDict conf)"
    and "map_of conf ''items'' = Some (JList [])"
  shows "extracted (JDict kvs) \<and> contributed (JDict kvs) = []
         \<and> collect_main_category_items (pre @ JDict kvs # post) =
             collect_main_category_items (pre @ post)"
proof -
  have b: "banner_items (JDict kvs) = Inr []"
    using assms by (simp add: banner_items_def py_get_def py_iter_def)
  have q: "qualifies (JDict kvs) = Inr True"
    using assms b by (simp add: qualifies_def py_get_def)
  have e: "extracted (JDict kvs)"
    using q by (simp add: extracted_def)
  have c: "contributed (JDict kvs) = []"
    using e b by (simp add: contributed_def)
  have f: "first_failure (pre @ JDict kvs # post) = first_failure (pre @ post)"
    using q by (simp add: first_failure_append split: option.splits)
  have r: "regrouped (pre @ JDict kvs # post) = regrouped (pre @ post)"
    using e c by (simp add: regrouped_def accumulated_append accumulated_Cons)
  show ?thesis
    using e c f r by (simp add: collect_main_category_items_eq split: option.splits)
qed

theorem empty_banner_extracted_witness:
  "extracted empty_banner \<and> contributed empty_banner = []
   \<and> collect_main_category_items ([grid_component] @ empty_banner # [promo_banner]) =
       Inr [grid_component, promo_banner]"
proof -
  have r: "collect_main_category_items ([grid_component] @ [promo_banner]) =
             Inr [grid_component, promo_banner]"
    by code_simp
  have "extracted (JDict [(''layout'', JStr ''banner''), (''config'', JDict [(''items'', JList [])])])
        \<and> contributed (JDict [(''layout'', JStr ''banner''), (''config'', JDict [(''items'', JList [])])]) = []
        \<and> collect_main_category_items
             ([grid_component] @ JDict [(''layout'', JStr ''banner''), (''config'', JDict [(''items'', JList [])])] # [promo_banner]) =
           collect_main_category_items ([grid_component] @ [promo_banner])"
    by (rule empty_banner_extracted [where conf = "[(''items'', JList [])]"]) simp_all
  then show ?thesis
    unfolding r by (simp add: empty_banner_def)
qed

section \<open>Claims about category identifiers\<close>

text \<open>
  C3, as stated, fails: when the name is found and the catalog answers with success and an
  entry whose \<^verbatim>\<open>mattaId\<close> is 0, both lookups have succeeded, yet the result is the placeholder
  and not the entry's identifier.
\<close>

theorem zero_target_gives_placeholder:
  "fst (convert_category_id all_on zero_id_services ''42'' initial_state) = ''1139''"
  by code_simp

text \<open>
  C3, amended. With remapping enabled and the identifier not yet cached, the result is
  decided by the two answers as follows. The name service reports a record only by a 200
  answer whose body is a list starting with a dict; any other answer, and a record whose
  \<^verbatim>\<open>name\<close> is \<^verbatim>\<open>None\<close>, gives the identifier back unchanged. A record without \<^verbatim>\<open>name\<close> is looked
  up under the empty name, and a name that is not a string gives the placeholder \<^verbatim>\<open>1139\<close>.
  The catalog reports a match only by a 200 answer whose body is a dict with \<^verbatim>\<open>status\<close>
  \<^verbatim>\<open>"success"\<close> and a \<^verbatim>\<open>data\<close> list starting with a dict that holds a truthy \<^verbatim>\<open>mattaId\<close>; the
  result is then \<^verbatim>\<open>str\<close> of that value, the decimal form for an integer other than 0. Every
  other catalog answer gives the placeholder.
\<close>

theorem remap_outcomes:
  assumes "convert_category_ids cfg" and "category_cache s category_id = None"
  shows "fst (convert_category_id cfg srv category_id s) =
           (case wordpress_service srv (sent s) category_id of
              Response status (Some (JList (JDict record # records))) \<Rightarrow>
                if status = 200 then
                  (case (case map_of record ''name'' of None \<Rightarrow> JStr [] | Some v \<Rightarrow> v) of
                     JNull \<Rightarrow> category_id
                   | JStr name \<Rightarrow>
                       (case odoo_service srv (sent s @ [WordpressRequest category_id]) name of
                          Response status' (Some (JDict body)) \<Rightarrow>
                            if status' = 200 \<and> map_of body ''status'' = Some (JStr ''success'')
                            then
                              (case map_of body ''data'' of
                                 Some (JList (JDict entry # entries)) \<Rightarrow>
                                   (case map_of entry ''mattaId'' of
                                      Some matta_id \<Rightarrow>
                                        if truthy matta_id then py_str matta_id else ''1139''
                                    | None \<Rightarrow> ''1139'')
                               | _ \<Rightarrow> ''1139'')
                            else ''1139''
                        | _ \<Rightarrow> ''1139'')
                   | _ \<Rightarrow> ''1139'')
                else category_id
            | _ \<Rightarrow> category_id)
       \<and> (\<forall>n. truthy (JInt n) = (n \<noteq> 0) \<and> py_str (JInt n) = str_int n)"
  using assms
  by (simp add: convert_category_id_miss wordpress_name_def odoo_id_def truthy_def py_str_JInt
           split: http_result.splits option.splits json.splits list.splits)

theorem remap_outcomes_witness:
  "fst (convert_category_id all_on shop_services ''5'' initial_state) = ''5''
   \<and> fst (convert_category_id all_on shop_services ''9'' initial_state) = ''9''
   \<and> fst (convert_category_id all_on shop_services ''7'' initial_state) = ''1139''
   \<and> fst (convert_category_id all_on shop_services ''42'' initial_state) = ''777''"
proof -
  have e: "convert_category_ids all_on"
    by (simp add: all_on_def)
  have m: "category_cache initial_state i = None" for i
    by (simp add: initial_state_def)
  note r = remap_outcomes [OF e m, of shop_services, THEN conjunct1]
  have t: "str_int 777 = ''777''"
    by code_simp
  have 5: "fst (convert_category_id all_on shop_services ''5'' initial_state) = ''5''"
    unfolding r [of "''5''"] by (simp add: shop_services_def)
  have 9: "fst (convert_category_id all_on shop_services ''9'' initial_state) = ''9''"
    unfolding r [of "''9''"] by (simp add: shop_services_def)
  have 7: "fst (convert_category_id all_on shop_services ''7'' initial_state) = ''1139''"
    unfolding r [of "''7''"] by (simp add: shop_services_def)
  have 42: "fst (convert_category_id all_on shop_services ''42'' initial_state) = ''777''"
    unfolding r [of "''42''"] by (simp add: shop_services_def truthy_def py_str_JInt t)
  show ?thesis
    using 5 9 7 42 by simp
qed

text \<open>
  C5, as stated, fails twice under the key \<^verbatim>\<open>category\<close>: a string that is not made of digits
  but looks like an image address is replaced by a descriptor, and a negative integer is
  not looked up at all.
\<close>

theorem category_key_fallthrough_counterexample:
  "fst (transform_value no_dimensions shop_services ''category'' (JStr ''shoes.png'') initial_state)
     = Inr (JDict [(''imageUrl'', JStr ''shoes.png'')])
   \<and> fst (transform_value all_on shop_services ''category'' (JInt (- 42)) initial_state)
     = Inr (JInt (- 42))
   \<and> sent (snd (transform_value all_on shop_services ''category'' (JInt (- 42)) initial_state)) = []"
  by code_simp

text \<open>
  C5, amended. Under a key that is \<^verbatim>\<open>category\<close> or \<^verbatim>\<open>categoryid\<close> without regard to case: a
  non-empty string of digits is remapped; a non-negative integer is remapped from its decimal
  form and comes back as the integer the remapped string parses to, or as that string when
  it does not parse; every other value falls through to the general rules, so that
  \<^verbatim>\<open>None\<close>, booleans, floats, negative integers and strings that neither are digits nor look
  like an image address come back untouched, a string that looks like an image address becomes
  a descriptor, and lists and dicts are walked.
\<close>

theorem category_key_rule:
  assumes "is_category_key key"
  shows "(\<forall>t. isdigit t \<longrightarrow>
            transform_value cfg srv key (JStr t) s =
              (case convert_category_id cfg srv t s of
                 (converted_id, s') \<Rightarrow> (Inr (JStr converted_id), s')))
       \<and> (\<forall>n. 0 \<le> n \<longrightarrow>
            transform_value cfg srv key (JInt n) s =
              (case convert_category_id cfg srv (str_int n) s of
                 (converted_id, s') \<Rightarrow>
                   (case py_int converted_id of
                      Some m \<Rightarrow> (Inr (JInt m), s')
                    | None \<Rightarrow> (Inr (JStr converted_id), s'))))
       \<and> (\<forall>v. v = JNull \<or> (\<exists>b. v = JBool b) \<or> (\<exists>f. v = JFloat f)
              \<or> (\<exists>n. v = JInt n \<and> n < 0)
              \<or> (\<exists>t. v = JStr t \<and> \<not> isdigit t \<and> \<not> is_image_url v) \<longrightarrow>
            transform_value cfg srv key v s = (Inr v, s))
       \<and> (\<forall>t. \<not> isdigit t \<and> is_image_url (JStr t) \<longrightarrow>
            transform_value cfg srv key (JStr t) s =
              (case create_image_model cfg srv t None None s of (model, s') \<Rightarrow> (Inr model, s')))
       \<and> (\<forall>xs. transform_value cfg srv key (JList xs) s =
              (case transform_value_list cfg srv key xs [] s of
                 (Inl e, s') \<Rightarrow> (Inl e, s')
               | (Inr transformed_list, s') \<Rightarrow> (Inr (JList transformed_list), s')))
       \<and> (\<forall>kvs. transform_value cfg srv key (JDict kvs) s = transform_data cfg srv (JDict kvs) s)"
proof (intro conjI allI impI)
  fix t assume "isdigit t"
  with assms show "transform_value cfg srv key (JStr t) s =
              (case convert_category_id cfg srv t s of
                 (converted_id, s') \<Rightarrow> (Inr (JStr converted_id), s'))"
    by (rule transform_value_digit_string)
next
  fix n :: int assume "0 \<le> n"
  with assms show "transform_value cfg srv key (JInt n) s =
              (case convert_category_id cfg srv (str_int n) s of
                 (converted_id, s') \<Rightarrow>
                   (case py_int converted_id of
                      Some m \<Rightarrow> (Inr (JInt m), s')
                    | None \<Rightarrow> (Inr (JStr converted_id), s')))"
    by (rule transform_value_natural)
next
  fix v
  assume "v = JNull \<or> (\<exists>b. v = JBool b) \<or> (\<exists>f. v = JFloat f)
              \<or> (\<exists>n. v = JInt n \<and> n < 0)
              \<or> (\<exists>t. v = JStr t \<and> \<not> isdigit t \<and> \<not> is_image_url v)"
  with assms show "transform_value cfg srv key v s = (Inr v, s)"
    by (rule transform_value_category_other)
next
  fix t assume "\<not> isdigit t \<and> is_image_url (JStr t)"
  with assms show "transform_value cfg srv key (JStr t) s =
              (case create_image_model cfg srv t None None s of (model, s') \<Rightarrow> (Inr model, s'))"
    by (simp add: transform_value_category_image_string)
next
  fix xs show "transform_value cfg srv key (JList xs) s =
              (case transform_value_list cfg srv key xs [] s of
                 (Inl e, s') \<Rightarrow> (Inl e, s')
               | (Inr transformed_list, s') \<Rightarrow> (Inr (JList transformed_list), s'))"
    by (rule transform_value_JList)
next
  fix kvs show "transform_value cfg srv key (JDict kvs) s = transform_data cfg srv (JDict kvs) s"
    by (rule transform_value_JDict)
qed

theorem category_key_rule_witness:
  "is_category_key ''CategoryId''
   \<and> fst (transform_value all_on shop_services ''CategoryId'' (JStr ''42'') initial_state) = Inr (JStr ''777'')
   \<and> fst (transform_value all_on shop_services ''CategoryId'' (JInt 42) initial_state) = Inr (JInt 777)
   \<and> transform_value all_on shop_services ''CategoryId'' (JStr ''sale'') initial_state
       = (Inr (JStr ''sale''), initial_state)
   \<and> transform_value all_on shop_services ''CategoryId'' (JInt (- 1)) initial_state
       = (Inr (JInt (- 1)), initial_state)"
proof -
  have k: "is_category_key ''CategoryId''"
    by code_simp
  note r = category_key_rule [OF k, of all_on shop_services initial_state]
  note r1 = r [THEN conjunct1, rule_format]
  note r2 = r [THEN conjunct2, THEN conjunct1, rule_format]
  note r3 = r [THEN conjunct2, THEN conjunct2, THEN conjunct1, rule_format]
  have d: "isdigit ''42''"
    by code_simp
  have f: "fst (convert_category_id all_on shop_services ''42'' initial_state) = ''777''"
    by code_simp
  have s42: "str_int 42 = ''42''"
    by code_simp
  have p: "py_int ''777'' = Some 777"
    by code_simp
  have o: "\<not> isdigit ''sale'' \<and> \<not> is_image_url (JStr ''sale'')"
    by code_simp
  have 1: "fst (transform_value all_on shop_services ''CategoryId'' (JStr ''42'') initial_state) = Inr (JStr ''777'')"
    by (simp add: r1 [OF d] case_prod_beta f)
  have n: "(0::int) \<le> 42"
    by simp
  have 2: "fst (transform_value all_on shop_services ''CategoryId'' (JInt 42) initial_state) = Inr (JInt 777)"
    by (simp add: r2 [OF n] s42 case_prod_beta f p)
  have 3: "transform_value all_on shop_services ''CategoryId'' (JStr ''sale'') initial_state
       = (Inr (JStr ''sale''), initial_state)"
    by (rule r3) (simp add: o)
  have 4: "transform_value all_on shop_services ''CategoryId'' (JInt (- 1)) initial_state
       = (Inr (JInt (- 1)), initial_state)"
    by (rule r3) simp
  show ?thesis
    using k 1 2 3 4 by simp
qed

text \<open>
  C7. With remapping enabled, whatever \<^verbatim>\<open>convert_category_id\<close> returns for an identifier is in
  the cache under that identifier when it returns; a cached identifier is answered from the
  cache, with no request and no change of state; an entry, once cached, stays as it is for
  the rest of the walk; and in a run that starts with empty caches no identifier is sent to
  the name service twice.
\<close>

theorem category_lookups_memoized:
  assumes "convert_category_ids cfg"
  shows "category_cache (snd (convert_category_id cfg srv cid s)) cid =
           Some (fst (convert_category_id cfg srv cid s))
       \<and> (\<forall>v. category_cache s cid = Some v \<longrightarrow> convert_category_id cfg srv cid s = (v, s))
       \<and> (\<forall>v. category_cache s cid = Some v \<longrightarrow>
              category_cache (snd (transform_data cfg srv doc s)) cid = Some v)
       \<and> distinct (wordpress_requests (sent (snd (transform_data cfg srv doc initial_state))))"
proof -
  have "lookups_memoized (snd (transform_data cfg srv doc initial_state))"
    by (rule transform_data_lookups) (rule initial_state_memoized)
  then have "distinct (wordpress_requests (sent (snd (transform_data cfg srv doc initial_state))))"
    by (simp add: lookups_memoized_def)
  then show ?thesis
    using assms
    by (simp add: convert_category_id_memoized convert_category_id_hit transform_data_keeps_category)
qed

theorem category_lookups_memoized_witness:
  "convert_category_ids all_on
   \<and> fst (transform_data all_on shop_services category_document initial_state) =
       Inr (JDict [(''category'', JStr ''777''), (''categoryId'', JInt 777),
                   (''items'', JList [JDict [(''Category'', JStr ''777'')],
                                      JDict [(''category'', JInt 1139)]])])
   \<and> wordpress_requests (sent (snd (transform_data all_on shop_services category_document initial_state)))
       = [''42'', ''7'']
   \<and> distinct (wordpress_requests (sent (snd (transform_data all_on shop_services category_document initial_state))))
   \<and> category_cache (snd (convert_category_id all_on shop_services ''42'' initial_state)) ''42''
       = Some ''777''"
proof -
  have e: "convert_category_ids all_on"
    by (simp add: all_on_def)
  have r: "fst (transform_data all_on shop_services category_document initial_state) =
       Inr (JDict [(''category'', JStr ''777''), (''categoryId'', JInt 777),
                   (''items'', JList [JDict [(''Category'', JStr ''777'')],
                                      JDict [(''category'', JInt 1139)]])])"
    by code_simp
  have w: "wordpress_requests (sent (snd (transform_data all_on shop_services category_document initial_state)))
       = [''42'', ''7'']"
    by code_simp
  have c: "fst (convert_category_id all_on shop_services ''42'' initial_state) = ''777''"
    by code_simp
  show ?thesis
    using category_lookups_memoized [OF e, of shop_services "''42''" initial_state category_document]
      e r w c
    by simp
qed

section \<open>Claims about images\<close>



text \<open>
  C8, as stated, fails: \<^verbatim>\<open>raise_for_status\<close> raises for the statuses 400 to 599 only, so an
  answer with status 300 whose body is an image gives its dimensions, not the unknown result.
\<close>

theorem redirect_with_image_gives_dimensions:
  "fst (get_image_dimensions all_on multiple_choices_services ''a.png'' initial_state)
     = (Some 640, Some 480)"
  by code_simp

text \<open>
  C8, amended. A fetch that is attempted gives \<^verbatim>\<open>(None, None)\<close> when the request fails, when
  the status is from 400 to 599, or when the body is not an image, and the decoded size for
  any other status; the walk goes on with a descriptor, not an exception. With caching
  enabled, whatever \<^verbatim>\<open>get_image_dimensions\<close> returns after a fetch is cached under the
  address, the unknown outcome included; a cached address is answered from the cache with no
  request and no change of state; an entry stays as it is for the rest of the walk; and in a
  run that starts with empty caches no address is fetched twice.
\<close>

theorem dimension_fetch_absorbed_and_cached:
  "(fetch_dimensions cfg \<and> \<not> (cache_dimensions cfg \<and> dimension_cache s url \<noteq> None) \<longrightarrow>
      fst (get_image_dimensions cfg srv url s) =
        (case image_service srv (sent s) url of
           ConnectionFailed \<Rightarrow> (None, None)
         | Fetched status decoded \<Rightarrow>
             if 400 \<le> status \<and> status < 600 then (None, None)
             else (case decoded of
                     None \<Rightarrow> (None, None)
                   | Some (width, height) \<Rightarrow> (Some width, Some height))))
   \<and> (\<forall>key. is_image_field key \<longrightarrow>
          (\<exists>model. fst (transform_value cfg srv key (JStr url) s) = Inr model))
   \<and> (cache_dimensions cfg \<longrightarrow>
          (fetch_dimensions cfg \<longrightarrow>
             dimension_cache (snd (get_image_dimensions cfg srv url s)) url =
               Some (fst (get_image_dimensions cfg srv url s)))
        \<and> (\<forall>d. fetch_dimensions cfg \<and> dimension_cache s url = Some d \<longrightarrow>
               get_image_dimensions cfg srv url s = (d, s))
        \<and> (\<forall>d. dimension_cache s url = Some d \<longrightarrow>
               dimension_cache (snd (transform_data cfg srv doc s)) url = Some d)
        \<and> distinct (image_requests (sent (snd (transform_data cfg srv doc initial_state)))))"
proof -
  have d: "distinct (image_requests (sent (snd (transform_data cfg srv doc initial_state))))"
    if "cache_dimensions cfg"
  proof -
    have "fetches_memoized (snd (transform_data cfg srv doc initial_state))"
      using that by (rule transform_data_fetches) (rule initial_state_memoized)
    then show ?thesis
      by (simp add: fetches_memoized_def)
  qed
  have f: "fst (get_image_dimensions cfg srv url s) =
        (case image_service srv (sent s) url of
           ConnectionFailed \<Rightarrow> (None, None)
         | Fetched status decoded \<Rightarrow>
             if 400 \<le> status \<and> status < 600 then (None, None)
             else (case decoded of
                     None \<Rightarrow> (None, None)
                   | Some (width, height) \<Rightarrow> (Some width, Some height)))"
    if "fetch_dimensions cfg" and "\<not> (cache_dimensions cfg \<and> dimension_cache s url \<noteq> None)"
    using that
    by (auto simp: get_image_dimensions_def fetched_size_def Let_def
             split: fetch_result.splits option.splits prod.splits)
  have v: "\<exists>model. fst (transform_value cfg srv key (JStr url) s) = Inr model"
    if "is_image_field key" for key
    using that by (simp add: transform_value_image_field split: prod.splits)
  show ?thesis
    using d f v
    by (simp add: get_image_dimensions_memoized get_image_dimensions_hit
                  transform_data_keeps_dimensions)
qed

theorem dimension_fetch_absorbed_and_cached_witness:
  "cache_dimensions all_on \<and> fetch_dimensions all_on
   \<and> is_image_field ''thumbnail''
   \<and> fst (transform_data all_on shop_services image_document initial_state) =
       Inr (JDict [(''logo'', JDict [(''imageUrl'', JStr ''a.png''), (''width'', JStr ''640''),
                                     (''height'', JStr ''480'')]),
                   (''thumbnail'', JDict [(''imageUrl'', JStr ''missing'')]),
                   (''slider_images'',
                    JList [JDict [(''imageUrl'', JStr ''a.png''), (''width'', JStr ''640''),
                                  (''height'', JStr ''480'')],
                           JDict [(''imageUrl'', JStr ''missing'')],
                           JDict [(''imageUrl'', JStr ''missing'')]])])
   \<and> image_requests (sent (snd (transform_data all_on shop_services image_document initial_state)))
       = [''a.png'', ''missing'']
   \<and> distinct (image_requests (sent (snd (transform_data all_on shop_services image_document initial_state))))
   \<and> fst (get_image_dimensions all_on shop_services ''missing'' initial_state) = (None, None)
   \<and> fst (get_image_dimensions all_on shop_services ''gone.png'' initial_state) = (None, None)
   \<and> fst (get_image_dimensions all_on shop_services ''broken.png'' initial_state) = (None, None)
   \<and> fst (get_image_dimensions all_on shop_services ''a.png'' initial_state) = (Some 640, Some 480)
   \<and> dimension_cache (snd (get_image_dimensions all_on shop_services ''gone.png'' initial_state)) ''gone.png''
       = Some (None, None)
   \<and> (\<exists>model. fst (transform_value all_on shop_services ''thumbnail'' (JStr ''gone.png'') initial_state)
         = Inr model)"
proof -
  have e: "fetch_dimensions all_on" "cache_dimensions all_on"
    by (simp_all add: all_on_def)
  have k: "is_image_field ''thumbnail''"
    by code_simp
  have r: "fst (transform_data all_on shop_services image_document initial_state) =
       Inr (JDict [(''logo'', JDict [(''imageUrl'', JStr ''a.png''), (''width'', JStr ''640''),
                                     (''height'', JStr ''480'')]),
                   (''thumbnail'', JDict [(''imageUrl'', JStr ''missing'')]),
                   (''slider_images'',
                    JList [JDict [(''imageUrl'', JStr ''a.png''), (''width'', JStr ''640''),
                                  (''height'', JStr ''480'')],
                           JDict [(''imageUrl'', JStr ''missing'')],
                           JDict [(''imageUrl'', JStr ''missing'')]])])"
    by code_simp
  have w: "image_requests (sent (snd (transform_data all_on shop_services image_document initial_state)))
       = [''a.png'', ''missing'']"
    by code_simp
  have m: "dimension_cache initial_state u = None" for u
    by (simp add: initial_state_def)
  have a: "image_service shop_services (sent initial_state) ''missing'' = ConnectionFailed"
    "image_service shop_services (sent initial_state) ''gone.png'' = Fetched 404 (Some (640, 480))"
    "image_service shop_services (sent initial_state) ''broken.png'' = Fetched 200 None"
    "image_service shop_services (sent initial_state) ''a.png'' = Fetched 200 (Some (640, 480))"
    by (simp_all add: shop_services_def)
  note t = dimension_fetch_absorbed_and_cached [of all_on initial_state _ shop_services image_document]
  show ?thesis
    using t [of "''missing''"] t [of "''gone.png''"] t [of "''broken.png''"] t [of "''a.png''"]
      e k r w m a
    by simp
qed

text \<open>
  C9. With fetching disabled, \<^verbatim>\<open>get_image_dimensions\<close> returns \<^verbatim>\<open>(None, None)\<close> and leaves the
  state as it is, every descriptor holds \<^verbatim>\<open>imageUrl\<close> alone, and a whole walk sends no image
  request and leaves the dimension cache untouched.
\<close>

theorem disabled_fetch_gives_bare_descriptor:
  assumes "\<not> fetch_dimensions cfg"
  shows "get_image_dimensions cfg srv url s = ((None, None), s)
       \<and> create_image_model cfg srv url None None s = (JDict [(''imageUrl'', JStr url)], s)
       \<and> image_requests (sent (snd (transform_data cfg srv doc s))) = image_requests (sent s)
       \<and> dimension_cache (snd (transform_data cfg srv doc s)) = dimension_cache s"
  using assms transform_data_no_fetch [OF assms, of srv doc s]
  by (simp add: get_image_dimensions_disabled create_image_model_fetched image_descriptor_def)

theorem disabled_fetch_gives_bare_descriptor_witness:
  "\<not> fetch_dimensions no_dimensions
   \<and> fst (transform_data no_dimensions shop_services image_document initial_state) =
       Inr (JDict [(''logo'', JDict [(''imageUrl'', JStr ''a.png'')]),
                   (''thumbnail'', JDict [(''imageUrl'', JStr ''missing'')]),
                   (''slider_images'',
                    JList [JDict [(''imageUrl'', JStr ''a.png'')],
                           JDict [(''imageUrl'', JStr ''missing'')],
                           JDict [(''imageUrl'', JStr ''missing'')]])])
   \<and> image_requests (sent (snd (transform_data no_dimensions shop_services image_document initial_state))) = []
   \<and> create_image_model no_dimensions shop_services ''a.png'' None None initial_state =
       (JDict [(''imageUrl'', JStr ''a.png'')], initial_state)"
proof -
  have e: "\<not> fetch_dimensions no_dimensions"
    by (simp add: no_dimensions_def)
  have r: "fst (transform_data no_dimensions shop_services image_document initial_state) =
       Inr (JDict [(''logo'', JDict [(''imageUrl'', JStr ''a.png'')]),
                   (''thumbnail'', JDict [(''imageUrl'', JStr ''missing'')]),
                   (''slider_images'',
                    JList [JDict [(''imageUrl'', JStr ''a.png'')],
                           JDict [(''imageUrl'', JStr ''missing'')],
                           JDict [(''imageUrl'', JStr ''missing'')]])])"
    by code_simp
  have i: "image_requests (sent initial_state) = []"
    by (simp add: initial_state_def)
  show ?thesis
    using disabled_fetch_gives_bare_descriptor
            [OF e, of shop_services "''a.png''" initial_state image_document] e r i
    by simp
qed

section \<open>Claims about the whole walk\<close>

text \<open>
  C2, as stated, fails: a document with no image field, no image address and no category
  field, but with a banner component that has no items, loses that component.
\<close>

theorem banner_breaks_identity:
  "no_image_or_category
     (JDict [(''title'', JStr ''Home''),
             (''components'', JList [JDict [(''layout'', JStr ''banner'')]])])
   \<and> fst (transform_data all_on shop_services
            (JDict [(''title'', JStr ''Home''),
                    (''components'', JList [JDict [(''layout'', JStr ''banner'')]])])
            initial_state)
     = Inr (JDict [(''title'', JStr ''Home''), (''components'', JList [])])"
  by code_simp

text \<open>
  C2, amended. A document with no string under an image-field key, no string that looks like
  an image address and no category key, in which moreover no list under a \<^verbatim>\<open>components\<close> key
  holds a component that the regrouping pass extracts or fails on, is returned as it is, keys
  in order, and the state is left as it was.
\<close>

theorem unremarkable_document_unchanged:
  assumes "no_image_or_category doc" and "no_extraction doc"
  shows "transform_data cfg srv doc s = (Inr doc, s)"
  using assms unremarkable_unchanged [of doc cfg srv] by blast

theorem unremarkable_document_unchanged_witness:
  "no_image_or_category plain_document \<and> no_extraction plain_document
   \<and> transform_data all_on shop_services plain_document initial_state
       = (Inr plain_document, initial_state)"
proof -
  have p: "no_image_or_category plain_document"
    by code_simp
  have q: "no_extraction plain_document"
    by code_simp
  show ?thesis
    using unremarkable_document_unchanged [OF p q, of all_on shop_services initial_state] p q
    by simp
qed

text \<open>
  C10. The list stored under \<^verbatim>\<open>components\<close> is the regrouping of the elements after they have
  been transformed: the record of an item of an extracted banner holds \<^verbatim>\<open>str\<close> of the
  transformed item's \<^verbatim>\<open>category\<close>, which is \<^verbatim>\<open>None\<close> for a missing key and the decimal form for
  an integer, and the transformed item's \<^verbatim>\<open>image\<close>.
\<close>

theorem records_built_from_transformed_items:
  assumes "transform_data_list cfg srv xs s = (Inr ys, s')" and "first_failure ys = None"
  shows "transform_data_items cfg srv ((''components'', JList xs) # rest) transformed s =
           transform_data_items cfg srv rest
             (transformed @
              [(''components'',
                JList ((if concat (map contributed ys) = [] then []
                        else [main_category_list (concat (map contributed ys))])
                       @ filter (\<lambda>c. \<not> extracted c) ys))]) s'
       \<and> (\<forall>c \<in> set ys. extracted c \<longrightarrow>
             (\<exists>items. banner_items c = Inr items
                \<and> contributed c =
                    map (\<lambda>item. JDict [(''id'', JStr (py_str (field item ''category''))),
                                       (''image'', field item ''image'')]) items))
       \<and> (\<forall>kvs. map_of kvs ''category'' = None \<longrightarrow>
             py_str (field (JDict kvs) ''category'') = ''None'')
       \<and> (\<forall>kvs n. map_of kvs ''category'' = Some (JInt n) \<longrightarrow>
             py_str (field (JDict kvs) ''category'') = str_int n)
       \<and> (\<forall>kvs v. map_of kvs ''image'' = Some v \<longrightarrow> field (JDict kvs) ''image'' = v)"
proof -
  have 1: "transform_data_items cfg srv ((''components'', JList xs) # rest) transformed s =
           transform_data_items cfg srv rest
             (transformed @
              [(''components'',
                JList ((if concat (map contributed ys) = [] then []
                        else [main_category_list (concat (map contributed ys))])
                       @ filter (\<lambda>c. \<not> extracted c) ys))]) s'"
    using transform_data_items_components [OF assms, of rest transformed]
    by (simp add: regrouped_def accumulated_def)
  have 2: "\<exists>items. banner_items c = Inr items
                \<and> contributed c =
                    map (\<lambda>item. JDict [(''id'', JStr (py_str (field item ''category''))),
                                       (''image'', field item ''image'')]) items"
    if "extracted c" for c
    using contributed_extracted [OF that] by (simp add: record_of_def [abs_def])
  show ?thesis
    using 1 2 by (simp add: field_def py_str_def)
qed

theorem records_built_from_transformed_items_witness:
  "fst (transform_data_list all_on shop_services storefront_components initial_state)
     = Inr storefront_transformed
   \<and> first_failure storefront_transformed = None
   \<and> fst (transform_data all_on shop_services
            (JDict [(''components'', JList storefront_components)]) initial_state)
     = Inr (JDict [(''components'',
                    JList [JDict [(''layout'', JStr ''mainCategoryList''),
                                  (''config'',
                                   JDict [(''categories'',
                                           JList [JDict [(''id'', JStr ''777''),
                                                         (''image'',
                                                          JDict [(''imageUrl'', JStr ''a.png''),
                                                                 (''width'', JStr ''640''),
                                                                 (''height'', JStr ''480'')])],
                                                  JDict [(''id'', JStr ''None''),
                                                         (''image'',
                                                          JDict [(''imageUrl'', JStr ''plain'')])]])])],
                           JDict [(''layout'', JStr ''grid'')]])])"
proof -
  let ?s' = "snd (transform_data_list all_on shop_services storefront_components initial_state)"
  have f: "fst (transform_data_list all_on shop_services storefront_components initial_state)
             = Inr storefront_transformed"
    by code_simp
  then have t: "transform_data_list all_on shop_services storefront_components initial_state
             = (Inr storefront_transformed, ?s')"
    by (simp add: prod_eq_iff)
  have n: "first_failure storefront_transformed = None"
    by code_simp
  have c: "concat (map contributed storefront_transformed) =
             [JDict [(''id'', JStr ''777''),
                     (''image'', JDict [(''imageUrl'', JStr ''a.png''), (''width'', JStr ''640''),
                                        (''height'', JStr ''480'')])],
              JDict [(''id'', JStr ''None''), (''image'', JDict [(''imageUrl'', JStr ''plain'')])]]"
    by code_simp
  have k: "filter (\<lambda>c. \<not> extracted c) storefront_transformed = [JDict [(''layout'', JStr ''grid'')]]"
    by code_simp
  have "transform_data_items all_on shop_services
          ((''components'', JList storefront_components) # []) [] initial_state =
        transform_data_items all_on shop_services []
          ([] @ [(''components'',
                JList ((if concat (map contributed storefront_transformed) = [] then []
                        else [main_category_list (concat (map contributed storefront_transformed))])
                       @ filter (\<lambda>c. \<not> extracted c) storefront_transformed))]) ?s'"
    using records_built_from_transformed_items [OF t n, of "[]" "[]"] by blast
  then show ?thesis
    unfolding c k using f n by (simp add: main_category_list_def)
qed

end
